theory Spec2Isabelle
  imports Complex_Main
begin

section \<open>JavaScript values\<close>

text \<open>
  The viewer (src/src/App.tsx) receives its document from \<^verbatim>\<open>response.json()\<close> with
  type \<^verbatim>\<open>any\<close>; the TypeScript interfaces are erased at run time. The values the
  program handles are therefore modelled as JavaScript values. An object is the list of
  its own properties, read with the first binding of a key; \<open>JUndefined\<close> is what
  reading a missing property gives. A JSON number is a real here: the program only tests
  numbers for being zero.
\<close>

datatype jsval =
    JUndefined
  | JNull
  | JBool bool
  | JNum real
  | JStr string
  | JArr "jsval list"
  | JObj "(string \<times> jsval) list"

datatype js_error = TypeError | NetworkError | HttpError nat | SyntaxError

text \<open>The values JSON.parse can produce: no \<open>undefined\<close> at any depth.\<close>

fun is_json :: "jsval \<Rightarrow> bool" where
  "is_json JUndefined = False"
| "is_json (JArr xs) = (\<forall>x \<in> set xs. is_json x)"
| "is_json (JObj kvs) = (\<forall>v \<in> set (map snd kvs). is_json v)"
| "is_json _ = True"

text \<open>ToBoolean: what \<^verbatim>\<open>if (v)\<close>, \<^verbatim>\<open>!v\<close>, \<^verbatim>\<open>v || d\<close> and \<^verbatim>\<open>v && w\<close> test.\<close>

fun truthy :: "jsval \<Rightarrow> bool" where
  "truthy JUndefined = False"
| "truthy JNull = False"
| "truthy (JBool b) = b"
| "truthy (JNum n) = (n \<noteq> 0)"
| "truthy (JStr s) = (s \<noteq> [])"
| "truthy (JArr xs) = True"
| "truthy (JObj kvs) = True"

text \<open>\<^verbatim>\<open>a || d\<close>: the left operand when it is truthy, the right one otherwise.\<close>

definition js_or :: "jsval \<Rightarrow> jsval \<Rightarrow> jsval" where
  "js_or a d = (if truthy a then a else d)"

definition nullish :: "jsval \<Rightarrow> bool" where
  "nullish v = (v = JUndefined \<or> v = JNull)"

text \<open>
  \<^verbatim>\<open>o.k\<close> for a receiver that is neither \<open>undefined\<close> nor \<open>null\<close>. The program reads
  only the property names of its interfaces (name, description, constructors, ...), none
  of which is defined on the prototype of a boolean, a number, a string, an array or a
  plain object, so a read finds an own property of an object or nothing.
\<close>

fun property :: "jsval \<Rightarrow> string \<Rightarrow> jsval" where
  "property (JObj kvs) k = (case map_of kvs k of None \<Rightarrow> JUndefined | Some v \<Rightarrow> v)"
| "property _ k = JUndefined"

text \<open>\<^verbatim>\<open>o.k\<close> in general: reading a property of \<open>undefined\<close> or \<open>null\<close> raises.\<close>

definition get :: "jsval \<Rightarrow> string \<Rightarrow> js_error + jsval" where
  "get o' k = (if nullish o' then Inl TypeError else Inr (property o' k))"

text \<open>\<^verbatim>\<open>xs.forEach(x => out.push(f(x)))\<close> where \<open>f\<close> may raise: the first error ends the loop.\<close>

fun mapE :: "('a \<Rightarrow> js_error + 'b) \<Rightarrow> 'a list \<Rightarrow> js_error + 'b list" where
  "mapE f [] = Inr []"
| "mapE f (x # xs) =
     (case f x of
        Inl e \<Rightarrow> Inl e
      | Inr y \<Rightarrow> (case mapE f xs of Inl e \<Rightarrow> Inl e | Inr ys \<Rightarrow> Inr (y # ys)))"

section \<open>The document: interfaces of App.tsx\<close>

text \<open>
  The object literals of the loader have fixed keys, so each interface is a record; the
  values of the fields are whatever the payload held, hence \<open>jsval\<close>. TypeScript types
  are structural: an \<open>IEvent\<close> has the fields of \<open>IBaseItem\<close> plus \<open>params\<close> and
  \<open>isProtected\<close>, and an \<open>IMember\<close> has those and five more, so the records extend
  one another in that order and \<open>name\<close> and \<open>isProtected\<close> read every kind of
  member. \<open>IConstructor\<close>, \<open>IMethod\<close> and \<open>IFunction\<close> add nothing to \<open>IMember\<close>.
  \<open>IContainer\<close> holds \<open>fileName\<close>, which \<open>IClass\<close> and \<open>IModule\<close> both declare;
  \<open>mfunctions\<close> is the field \<^verbatim>\<open>functions\<close> of \<open>IModule\<close> (the word is reserved in Isabelle).
\<close>

record IBaseItem =
  name :: jsval
  description :: jsval
  remarks :: jsval
  examples :: jsval
  devNotes :: jsval
  todos :: jsval
  requires :: jsval

record IEvent = IBaseItem +
  params :: jsval
  isProtected :: jsval

record IMember = IEvent +
  returns :: jsval
  throws :: jsval
  isStatic :: jsval
  isDefaultMember :: jsval
  deprecation :: jsval

record IProperty = IMember +
  access :: jsval

record IContainer = IBaseItem +
  fileName :: jsval

record IClass = IContainer +
  implements :: jsval
  constructors :: "IMember list"
  properties :: "IProperty list"
  methods :: "IMember list"
  events :: "IEvent list"

record IModule = IContainer +
  mfunctions :: "IMember list"

record IData =
  classes :: "IClass list"
  modules :: "IModule list"

section \<open>The loader: normalization in fetchDocumentation\<close>

text \<open>
  The defaults of the object literals (App.tsx, lines 730 to 857). In each literal the
  first read, \<^verbatim>\<open>x.name\<close>, is the one that raises when \<open>x\<close> is \<open>null\<close>; the reads after it
  are of the same receiver and cannot raise.
\<close>

definition defaultReturns :: jsval where
  "defaultReturns = JObj [(''type'', JStr ''Variant''), (''description'', JStr '''')]"

definition defaultDeprecation :: jsval where
  "defaultDeprecation = JObj [(''status'', JBool False), (''message'', JStr '''')]"

text \<open>The literal pushed for a constructor, a class method and a module function
  (lines 748, 791 and 841: the same fourteen fields).\<close>

definition normalizeMember :: "jsval \<Rightarrow> js_error + IMember" where
  "normalizeMember m =
     (case get m ''name'' of
        Inl e \<Rightarrow> Inl e
      | Inr nm \<Rightarrow> Inr
          \<lparr> name = nm,
            description = js_or (property m ''description'') (JStr ''''),
            remarks = js_or (property m ''remarks'') (JArr []),
            examples = js_or (property m ''examples'') (JArr []),
            devNotes = js_or (property m ''devNotes'') (JArr []),
            todos = js_or (property m ''todos'') (JArr []),
            requires = js_or (property m ''requires'') (JArr []),
            params = js_or (property m ''params'') (JArr []),
            isProtected = js_or (property m ''isProtected'') (JBool False),
            returns = js_or (property m ''returns'') defaultReturns,
            throws = js_or (property m ''throws'') (JArr []),
            isStatic = js_or (property m ''isStatic'') (JBool False),
            isDefaultMember = js_or (property m ''isDefaultMember'') (JBool False),
            deprecation = js_or (property m ''deprecation'') defaultDeprecation \<rparr>)"

text \<open>The literal pushed for a property (line 769): the same, and \<open>access\<close>.\<close>

definition normalizeProperty :: "jsval \<Rightarrow> js_error + IProperty" where
  "normalizeProperty p =
     (case get p ''name'' of
        Inl e \<Rightarrow> Inl e
      | Inr nm \<Rightarrow> Inr
          \<lparr> name = nm,
            description = js_or (property p ''description'') (JStr ''''),
            remarks = js_or (property p ''remarks'') (JArr []),
            examples = js_or (property p ''examples'') (JArr []),
            devNotes = js_or (property p ''devNotes'') (JArr []),
            todos = js_or (property p ''todos'') (JArr []),
            requires = js_or (property p ''requires'') (JArr []),
            params = js_or (property p ''params'') (JArr []),
            isProtected = js_or (property p ''isProtected'') (JBool False),
            returns = js_or (property p ''returns'') defaultReturns,
            throws = js_or (property p ''throws'') (JArr []),
            isStatic = js_or (property p ''isStatic'') (JBool False),
            isDefaultMember = js_or (property p ''isDefaultMember'') (JBool False),
            deprecation = js_or (property p ''deprecation'') defaultDeprecation,
            access = js_or (property p ''access'') (JStr ''ReadWrite'') \<rparr>)"

text \<open>The literal pushed for an event (line 812): nine fields.\<close>

definition normalizeEvent :: "jsval \<Rightarrow> js_error + IEvent" where
  "normalizeEvent ev =
     (case get ev ''name'' of
        Inl e \<Rightarrow> Inl e
      | Inr nm \<Rightarrow> Inr
          \<lparr> name = nm,
            description = js_or (property ev ''description'') (JStr ''''),
            remarks = js_or (property ev ''remarks'') (JArr []),
            examples = js_or (property ev ''examples'') (JArr []),
            devNotes = js_or (property ev ''devNotes'') (JArr []),
            todos = js_or (property ev ''todos'') (JArr []),
            requires = js_or (property ev ''requires'') (JArr []),
            params = js_or (property ev ''params'') (JArr []),
            isProtected = js_or (property ev ''isProtected'') (JBool False) \<rparr>)"

text \<open>\<^verbatim>\<open>if (Array.isArray(v)) v.forEach(x => out.push(f x))\<close>, with \<open>out\<close> empty before.\<close>

definition pushEach :: "(jsval \<Rightarrow> js_error + 'b) \<Rightarrow> jsval \<Rightarrow> js_error + 'b list" where
  "pushEach f v = (case v of JArr xs \<Rightarrow> mapE f xs | _ \<Rightarrow> Inr [])"

text \<open>Line 727: \<^verbatim>\<open>item.constructors !== undefined || item.events !== undefined\<close>.\<close>

definition isClass :: "jsval \<Rightarrow> js_error + bool" where
  "isClass item =
     (case get item ''constructors'' of
        Inl e \<Rightarrow> Inl e
      | Inr c \<Rightarrow>
          if c \<noteq> JUndefined then Inr True
          else (case get item ''events'' of
                  Inl e \<Rightarrow> Inl e
                | Inr ev \<Rightarrow> Inr (ev \<noteq> JUndefined)))"

text \<open>The class branch, lines 730 to 825. \<open>item\<close> is not nullish here: \<open>isClass\<close> read it.\<close>

definition normalizeClass :: "jsval \<Rightarrow> js_error + IClass" where
  "normalizeClass item =
     (case pushEach normalizeMember (property item ''constructors'') of
        Inl e \<Rightarrow> Inl e
      | Inr cs \<Rightarrow>
     (case pushEach normalizeProperty (property item ''properties'') of
        Inl e \<Rightarrow> Inl e
      | Inr ps \<Rightarrow>
     (case pushEach normalizeMember (property item ''methods'') of
        Inl e \<Rightarrow> Inl e
      | Inr ms \<Rightarrow>
     (case pushEach normalizeEvent (property item ''events'') of
        Inl e \<Rightarrow> Inl e
      | Inr es \<Rightarrow> Inr
          \<lparr> name = property item ''name'',
            description = js_or (property item ''description'') (JStr ''''),
            remarks = js_or (property item ''remarks'') (JArr []),
            examples = js_or (property item ''examples'') (JArr []),
            devNotes = js_or (property item ''devNotes'') (JArr []),
            todos = js_or (property item ''todos'') (JArr []),
            requires = js_or (property item ''requires'') (JArr []),
            fileName = js_or (property item ''fileName'') (JStr ''''),
            implements = js_or (property item ''implements'') (JArr []),
            constructors = cs,
            properties = ps,
            methods = ms,
            events = es \<rparr>))))"

text \<open>The module branch, lines 827 to 859: the functions come from \<^verbatim>\<open>item.methods\<close>.\<close>

definition normalizeModule :: "jsval \<Rightarrow> js_error + IModule" where
  "normalizeModule item =
     (case pushEach normalizeMember (property item ''methods'') of
        Inl e \<Rightarrow> Inl e
      | Inr fs \<Rightarrow> Inr
          \<lparr> name = property item ''name'',
            description = js_or (property item ''description'') (JStr ''''),
            remarks = js_or (property item ''remarks'') (JArr []),
            examples = js_or (property item ''examples'') (JArr []),
            devNotes = js_or (property item ''devNotes'') (JArr []),
            todos = js_or (property item ''todos'') (JArr []),
            requires = js_or (property item ''requires'') (JArr []),
            fileName = js_or (property item ''fileName'') (JStr ''''),
            mfunctions = fs \<rparr>)"

text \<open>The body of the \<^verbatim>\<open>jsonData.forEach\<close> callback: what is pushed, and onto which list
  (\<open>Inl\<close>: classes, \<open>Inr\<close>: modules).\<close>

definition normalizeItem :: "jsval \<Rightarrow> js_error + (IClass + IModule)" where
  "normalizeItem item =
     (case isClass item of
        Inl e \<Rightarrow> Inl e
      | Inr True \<Rightarrow> (case normalizeClass item of Inl e \<Rightarrow> Inl e | Inr c \<Rightarrow> Inr (Inl c))
      | Inr False \<Rightarrow> (case normalizeModule item of Inl e \<Rightarrow> Inl e | Inr m \<Rightarrow> Inr (Inr m)))"

text \<open>The \<^verbatim>\<open>forEach\<close> over the payload, pushing onto the local arrays
  \<open>classes\<close> and \<open>modules\<close>.\<close>

fun forEachItem :: "jsval list \<Rightarrow> IData \<Rightarrow> js_error + IData" where
  "forEachItem [] d = Inr d"
| "forEachItem (item # rest) d =
     (case normalizeItem item of
        Inl e \<Rightarrow> Inl e
      | Inr (Inl c) \<Rightarrow> forEachItem rest (d\<lparr>classes := classes d @ [c]\<rparr>)
      | Inr (Inr m) \<Rightarrow> forEachItem rest (d\<lparr>modules := modules d @ [m]\<rparr>))"

definition emptyData :: IData where
  "emptyData = \<lparr> classes = [], modules = [] \<rparr>"

text \<open>Lines 722 to 863: a payload that is not an array gives the empty document.\<close>

definition normalize :: "jsval \<Rightarrow> js_error + IData" where
  "normalize jsonData =
     (case jsonData of JArr items \<Rightarrow> forEachItem items emptyData | _ \<Rightarrow> Inr emptyData)"

text \<open>
  What the specification calls carrying a field: the key is among the own properties of
  the payload's object. A value that is not an object carries none.
\<close>

fun carries :: "jsval \<Rightarrow> string \<Rightarrow> bool" where
  "carries (JObj kvs) k = (k \<in> set (map fst kvs))"
| "carries _ k = False"

definition classLike :: "jsval \<Rightarrow> bool" where
  "classLike item = (carries item ''constructors'' \<or> carries item ''events'')"

text \<open>
  Vocabulary for the defaults. \<open>defaulted raw k d v\<close>: the normalized field \<open>v\<close>, read
  from key \<open>k\<close> of the payload's record \<open>raw\<close>, is defined; it is the default \<open>d\<close>
  when the record has no such key, or a falsy value under it; and it is the payload's
  value, copied as it is, when that value is truthy. \<open>elements\<close> are the entries of an
  array. Each predicate below also says that the name is the payload's \<open>name\<close>, copied
  as it is, \<open>undefined\<close> included.
\<close>

definition defaulted :: "jsval \<Rightarrow> string \<Rightarrow> jsval \<Rightarrow> jsval \<Rightarrow> bool" where
  "defaulted raw k d v =
     (v \<noteq> JUndefined \<and>
      (property raw k = JUndefined \<longrightarrow> v = d) \<and>
      (\<not> truthy (property raw k) \<longrightarrow> v = d) \<and>
      (truthy (property raw k) \<longrightarrow> v = property raw k))"

definition elements :: "jsval \<Rightarrow> jsval list" where
  "elements v = (case v of JArr xs \<Rightarrow> xs | _ \<Rightarrow> [])"

definition baseOk :: "jsval \<Rightarrow> 'a IBaseItem_scheme \<Rightarrow> bool" where
  "baseOk raw x =
     (name x = property raw ''name'' \<and>
      defaulted raw ''description'' (JStr '''') (description x) \<and>
      defaulted raw ''remarks'' (JArr []) (remarks x) \<and>
      defaulted raw ''examples'' (JArr []) (examples x) \<and>
      defaulted raw ''devNotes'' (JArr []) (devNotes x) \<and>
      defaulted raw ''todos'' (JArr []) (todos x) \<and>
      defaulted raw ''requires'' (JArr []) (requires x))"

definition eventOk :: "jsval \<Rightarrow> 'a IEvent_scheme \<Rightarrow> bool" where
  "eventOk raw x =
     (baseOk raw x \<and>
      defaulted raw ''params'' (JArr []) (params x) \<and>
      defaulted raw ''isProtected'' (JBool False) (isProtected x))"

definition memberOk :: "jsval \<Rightarrow> 'a IMember_scheme \<Rightarrow> bool" where
  "memberOk raw x =
     (eventOk raw x \<and>
      defaulted raw ''returns'' defaultReturns (returns x) \<and>
      defaulted raw ''throws'' (JArr []) (throws x) \<and>
      defaulted raw ''isStatic'' (JBool False) (isStatic x) \<and>
      defaulted raw ''isDefaultMember'' (JBool False) (isDefaultMember x) \<and>
      defaulted raw ''deprecation'' defaultDeprecation (deprecation x))"

definition propertyOk :: "jsval \<Rightarrow> IProperty \<Rightarrow> bool" where
  "propertyOk raw x =
     (memberOk raw x \<and> defaulted raw ''access'' (JStr ''ReadWrite'') (access x))"

definition classOk :: "jsval \<Rightarrow> IClass \<Rightarrow> bool" where
  "classOk raw c =
     (baseOk raw c \<and>
      defaulted raw ''fileName'' (JStr '''') (fileName c) \<and>
      defaulted raw ''implements'' (JArr []) (implements c) \<and>
      list_all2 memberOk (elements (property raw ''constructors'')) (constructors c) \<and>
      list_all2 propertyOk (elements (property raw ''properties'')) (properties c) \<and>
      list_all2 memberOk (elements (property raw ''methods'')) (methods c) \<and>
      list_all2 eventOk (elements (property raw ''events'')) (events c))"

definition moduleOk :: "jsval \<Rightarrow> IModule \<Rightarrow> bool" where
  "moduleOk raw m =
     (baseOk raw m \<and>
      defaulted raw ''fileName'' (JStr '''') (fileName m) \<and>
      list_all2 memberOk (elements (property raw ''methods'')) (mfunctions m))"

section \<open>The state of App\<close>

text \<open>
  The \<^verbatim>\<open>useState\<close> cells of \<open>App\<close> that the navigation reads or writes. The cells that
  only show, hide or resize a panel are left out.
\<close>

datatype item_type = TClass | TModule

record selection =
  sel_type :: item_type
  sel_name :: jsval

record app_state =
  selectedItem :: "selection option"
  data :: IData
  loading :: bool
  error :: "string option"
  devMode :: bool
  highlightedMember :: "string option"

definition initState :: app_state where
  "initState =
     \<lparr> selectedItem = None, data = emptyData, loading = True, error = None,
       devMode = False, highlightedMember = None \<rparr>"

definition handleToggleMode :: "app_state \<Rightarrow> app_state" where
  "handleToggleMode st = st\<lparr>devMode := \<not> devMode st\<rparr>"

text \<open>
  \<^verbatim>\<open>a === b\<close> on the values compared here, which are names. Primitive values are equal
  when they are the same value. Arrays and objects are compared by reference in
  JavaScript; the embedding has no references and compares them by content, which differs
  only for two distinct objects of equal content.
\<close>

definition strictEq :: "jsval \<Rightarrow> jsval \<Rightarrow> bool" where
  "strictEq a b = (a = b)"

section \<open>The loader: fetchDocumentation\<close>

text \<open>
  The outcome of the one request: \<^verbatim>\<open>fetch\<close> rejects, or resolves with a response whose
  \<^verbatim>\<open>ok\<close> flag and status are given and whose body parses as JSON or does not.
\<close>

datatype body = BadJson | Json jsval

datatype fetch_result = NetworkFailure | Response bool nat body

text \<open>The \<^verbatim>\<open>try\<close> block, lines 715 to 863: \<open>Inl\<close> is a raise, \<open>Inr\<close> the argument of
  \<^verbatim>\<open>setData\<close>.\<close>

definition tryLoad :: "fetch_result \<Rightarrow> js_error + IData" where
  "tryLoad r =
     (case r of
        NetworkFailure \<Rightarrow> Inl NetworkError
      | Response ok status b \<Rightarrow>
          if \<not> ok then Inl (HttpError status)
          else (case b of BadJson \<Rightarrow> Inl SyntaxError | Json jsonData \<Rightarrow> normalize jsonData))"

definition errorMessage :: string where
  "errorMessage =
     ''Failed to load documentation. Please try again later. Check console for details.''"

text \<open>
  \<open>fetchDocumentation net st\<close>: \<open>net n\<close> is the outcome the network would give to the
  request number \<open>n\<close>. The result is the state after \<^verbatim>\<open>try\<close>, \<^verbatim>\<open>catch\<close> and
  \<^verbatim>\<open>finally\<close>, with the number of requests that were sent.
\<close>

definition fetchDocumentation :: "(nat \<Rightarrow> fetch_result) \<Rightarrow> app_state \<Rightarrow> app_state \<times> nat" where
  "fetchDocumentation net st =
     (case tryLoad (net 0) of
        Inr d \<Rightarrow> (st\<lparr>data := d, loading := False\<rparr>, 1)
      | Inl e \<Rightarrow> (st\<lparr>error := Some errorMessage, loading := False\<rparr>, 1))"

section \<open>The navigator: the URL parameter effect\<close>

text \<open>\<^verbatim>\<open>q.split('.')\<close>.\<close>

fun split_dot :: "string \<Rightarrow> string list" where
  "split_dot [] = [[]]"
| "split_dot (c # cs) =
     (if c = CHR ''.'' then [] # split_dot cs
      else (case split_dot cs of p # ps \<Rightarrow> (c # p) # ps | [] \<Rightarrow> [[c]]))"

text \<open>
  The block that lines 658 to 668 and 673 to 682 repeat for a class and for a module:
  select the item found and, when \<^verbatim>\<open>memberName\<close> is truthy, highlight it and start the
  timer. The second component is the member name the timer's callback will look for.
\<close>

definition selectFound ::
  "item_type \<Rightarrow> jsval \<Rightarrow> string option \<Rightarrow> app_state \<Rightarrow> app_state \<times> string option" where
  "selectFound ty nm memberName st =
     (let st1 = st\<lparr>selectedItem := Some \<lparr>sel_type = ty, sel_name = nm\<rparr>\<rparr> in
      case memberName of
        Some m \<Rightarrow> if m \<noteq> [] then (st1\<lparr>highlightedMember := Some m\<rparr>, Some m) else (st1, None)
      | None \<Rightarrow> (st1, None))"

text \<open>The effect of lines 650 to 689; \<open>q\<close> is \<^verbatim>\<open>params.get('q')\<close>, \<open>None\<close> for \<open>null\<close>.\<close>

definition urlEffect :: "string option \<Rightarrow> app_state \<Rightarrow> app_state \<times> string option" where
  "urlEffect q st =
     (case q of
        None \<Rightarrow> (st\<lparr>highlightedMember := None\<rparr>, None)
      | Some qs \<Rightarrow>
          if qs \<noteq> [] \<and> length (classes (data st)) + length (modules (data st)) > 0 then
            (let parts = split_dot qs;
                 itemName = (case parts of p # _ \<Rightarrow> JStr p | [] \<Rightarrow> JUndefined);
                 memberName = (case parts of _ # m # _ \<Rightarrow> Some m | _ \<Rightarrow> None)
             in case find (\<lambda>c. strictEq (name c) itemName) (classes (data st)) of
                  Some cls \<Rightarrow> selectFound TClass (name cls) memberName st
                | None \<Rightarrow>
                    (case find (\<lambda>m. strictEq (name m) itemName) (modules (data st)) of
                       Some md \<Rightarrow> selectFound TModule (name md) memberName st
                     | None \<Rightarrow> (st, None)))
          else (st\<lparr>highlightedMember := None\<rparr>, None))"

text \<open>
  From mounting to the loaded page. The effect runs at mounting, on the empty document,
  and again when \<^verbatim>\<open>setData\<close> has replaced \<^verbatim>\<open>data.classes\<close> and \<^verbatim>\<open>data.modules\<close>; a
  failed load calls no \<^verbatim>\<open>setData\<close>. Until the load ends the page shows no control, so
  no click comes between.
\<close>

definition startup :: "string option \<Rightarrow> (nat \<Rightarrow> fetch_result) \<Rightarrow> app_state \<times> string option" where
  "startup q net =
     (let st0 = fst (urlEffect q initState);
          st1 = fst (fetchDocumentation net st0)
      in case tryLoad (net 0) of
           Inr d \<Rightarrow> urlEffect q st1
         | Inl e \<Rightarrow> (st1, None))"

section \<open>The detail view: renderContent\<close>

text \<open>
  \<^verbatim>\<open>s.replace(/\s+/g, '-')\<close>: every maximal run of white space becomes one hyphen. A
  \<open>char\<close> stands for a code unit below 256, where the class \<^verbatim>\<open>\s\<close> holds the tab, the
  line feed, the vertical tab, the form feed, the carriage return, the space and the
  no-break space.
\<close>

definition is_space :: "char \<Rightarrow> bool" where
  "is_space c = (c \<in> set [CHR 0x09, CHR 0x0A, CHR 0x0B, CHR 0x0C, CHR 0x0D, CHR 0x20, CHR 0xA0])"

function replaceSpaces :: "string \<Rightarrow> string" where
  "replaceSpaces [] = []"
| "replaceSpaces (c # cs) =
     (if is_space c then CHR ''-'' # replaceSpaces (dropWhile is_space cs)
      else c # replaceSpaces cs)"
  by pat_completeness auto
termination
  by (relation "measure length") (auto simp: less_Suc_eq_le length_dropWhile_le)

text \<open>
  \<^verbatim>\<open>x.name.replace(/\s+/g, '-') + '-detail'\<close>, the \<^verbatim>\<open>id\<close> of a member's card. A name
  that is not a string has no \<^verbatim>\<open>replace\<close> method: the call raises.
\<close>

definition detailId :: "jsval \<Rightarrow> js_error + string" where
  "detailId nm = (case nm of JStr s \<Rightarrow> Inr (replaceSpaces s @ ''-detail'') | _ \<Rightarrow> Inl TypeError)"

text \<open>\<^verbatim>\<open>highlightedMember === x.name\<close>, with \<open>None\<close> for \<open>null\<close>.\<close>

definition highlightEq :: "string option \<Rightarrow> jsval \<Rightarrow> bool" where
  "highlightEq h nm = (case h of None \<Rightarrow> nm = JNull | Some s \<Rightarrow> nm = JStr s)"

text \<open>
  The props of a card (\<open>MethodConstructorDetail\<close>, \<open>PropertyDetail\<close>, \<open>EventDetail\<close>,
  \<open>FunctionDetail\<close>): the member, its \<^verbatim>\<open>id\<close>, the highlight flag and the parent's name.
\<close>

record 'm detail =
  d_member :: 'm
  d_id :: string
  d_highlight :: bool
  d_parentName :: jsval

definition detailOf ::
  "string option \<Rightarrow> jsval \<Rightarrow> 'a IBaseItem_scheme \<Rightarrow> js_error + 'a IBaseItem_scheme detail" where
  "detailOf h parent m =
     (case detailId (name m) of
        Inl e \<Rightarrow> Inl e
      | Inr i \<Rightarrow> Inr \<lparr> d_member = m, d_id = i, d_highlight = highlightEq h (name m),
                       d_parentName = parent \<rparr>)"

text \<open>Lines 930 to 941: \<^verbatim>\<open>devMode ? xs : xs.filter(x => !x.isProtected)\<close>.\<close>

definition visible :: "bool \<Rightarrow> 'a IEvent_scheme list \<Rightarrow> 'a IEvent_scheme list" where
  "visible dev xs = (if dev then xs else filter (\<lambda>x. \<not> truthy (isProtected x)) xs)"

text \<open>
  What the detail view of a class shows, by the props its parts receive. The notes shown
  in dev mode only are \<open>None\<close> in user mode. A section with no card is not rendered,
  heading included. The view of a module has the same head and one section. The child
  components (\<open>StringList\<close>, the markdown renderer, the cards) stand for themselves:
  what they draw from their props is not part of the view. Within renderContent itself
  the one expression that can raise is the id of a card.
\<close>

record class_view =
  cv_devMode :: bool
  cv_title :: jsval
  cv_description :: jsval
  cv_remarks :: jsval
  cv_examples :: "jsval list"
  cv_implements :: jsval
  cv_devNotes :: "jsval option"
  cv_todos :: "jsval option"
  cv_requires :: jsval
  cv_constructors :: "IMember detail list"
  cv_properties :: "IProperty detail list"
  cv_methods :: "IMember detail list"
  cv_events :: "IEvent detail list"

record module_view =
  mv_devMode :: bool
  mv_title :: jsval
  mv_description :: jsval
  mv_remarks :: jsval
  mv_examples :: "jsval list"
  mv_devNotes :: "jsval option"
  mv_todos :: "jsval option"
  mv_requires :: jsval
  mv_functions :: "IMember detail list"

datatype view =
    LoadingView
  | ErrorView string
  | WelcomeView bool
  | NotFoundView item_type
  | ClassView class_view
  | ModuleView module_view

text \<open>The class case of renderContent, lines 927 to 1018.\<close>

definition classView :: "app_state \<Rightarrow> IClass \<Rightarrow> js_error + class_view" where
  "classView st c =
     (let h = highlightedMember st; dev = devMode st in
      case mapE (detailOf h (name c)) (visible dev (constructors c)) of
        Inl e \<Rightarrow> Inl e
      | Inr cs \<Rightarrow>
     (case mapE (detailOf h (name c)) (visible dev (properties c)) of
        Inl e \<Rightarrow> Inl e
      | Inr ps \<Rightarrow>
     (case mapE (detailOf h (name c)) (visible dev (methods c)) of
        Inl e \<Rightarrow> Inl e
      | Inr ms \<Rightarrow>
     (case mapE (detailOf h (name c)) (visible dev (events c)) of
        Inl e \<Rightarrow> Inl e
      | Inr es \<Rightarrow> Inr
          \<lparr> cv_devMode = dev,
            cv_title = name c,
            cv_description = js_or (description c) (JStr ''''),
            cv_remarks = remarks c,
            cv_examples = elements (examples c),
            cv_implements = implements c,
            cv_devNotes = (if dev then Some (devNotes c) else None),
            cv_todos = (if dev then Some (todos c) else None),
            cv_requires = requires c,
            cv_constructors = cs,
            cv_properties = ps,
            cv_methods = ms,
            cv_events = es \<rparr>))))"

text \<open>The module case, lines 1020 to 1066: the functions are mapped as they are.\<close>

definition moduleView :: "app_state \<Rightarrow> IModule \<Rightarrow> js_error + module_view" where
  "moduleView st m =
     (let h = highlightedMember st; dev = devMode st in
      case mapE (detailOf h (name m)) (mfunctions m) of
        Inl e \<Rightarrow> Inl e
      | Inr fs \<Rightarrow> Inr
          \<lparr> mv_devMode = dev,
            mv_title = name m,
            mv_description = js_or (description m) (JStr ''''),
            mv_remarks = remarks m,
            mv_examples = elements (examples m),
            mv_devNotes = (if dev then Some (devNotes m) else None),
            mv_todos = (if dev then Some (todos m) else None),
            mv_requires = requires m,
            mv_functions = fs \<rparr>)"

text \<open>\<^verbatim>\<open>if (error)\<close>: the message is shown when it is a string that is not empty.\<close>

definition errorShown :: "app_state \<Rightarrow> string option" where
  "errorShown st = (case error st of Some msg \<Rightarrow> if msg \<noteq> [] then Some msg else None | None \<Rightarrow> None)"

definition renderContent :: "app_state \<Rightarrow> js_error + view" where
  "renderContent st =
     (if loading st then Inr LoadingView
      else case errorShown st of
        Some msg \<Rightarrow> Inr (ErrorView msg)
      | None \<Rightarrow>
     (case selectedItem st of
        None \<Rightarrow> Inr (WelcomeView (devMode st))
      | Some sel \<Rightarrow>
     (case sel_type sel of
        TClass \<Rightarrow>
          (case find (\<lambda>c. strictEq (name c) (sel_name sel)) (classes (data st)) of
             None \<Rightarrow> Inr (NotFoundView TClass)
           | Some c \<Rightarrow> (case classView st c of Inl e \<Rightarrow> Inl e | Inr v \<Rightarrow> Inr (ClassView v)))
      | TModule \<Rightarrow>
          (case find (\<lambda>m. strictEq (name m) (sel_name sel)) (modules (data st)) of
             None \<Rightarrow> Inr (NotFoundView TModule)
           | Some m \<Rightarrow> (case moduleView st m of Inl e \<Rightarrow> Inl e | Inr v \<Rightarrow> Inr (ModuleView v))))))"

section \<open>The outline: OnThisPagePanel\<close>

text \<open>
  The array \<^verbatim>\<open>members\<close> of lines 492 to 536: a header, or a member with its type
  string, its name and, where the entry holds the member, the member's
  \<^verbatim>\<open>isProtected\<close> (the one field of it that is read). A function's entry holds no member.
\<close>

datatype panel_member =
    PHeader string string
  | PMember string jsval "jsval option"

definition panelSection ::
  "bool \<Rightarrow> string \<Rightarrow> string \<Rightarrow> string \<Rightarrow> 'a IEvent_scheme list \<Rightarrow> panel_member list" where
  "panelSection dev title secId ty xs =
     (if length xs > 0
      then PHeader title secId # map (\<lambda>m. PMember ty (name m) (Some (isProtected m))) (visible dev xs)
      else [])"

fun panelMembers :: "bool \<Rightarrow> IClass + IModule \<Rightarrow> panel_member list" where
  "panelMembers dev (Inl c) =
     panelSection dev ''Constructors'' ''constructors-section'' ''constructor'' (constructors c) @
     panelSection dev ''Properties'' ''properties-section'' ''property'' (properties c) @
     panelSection dev ''Methods'' ''methods-section'' ''method'' (methods c) @
     panelSection dev ''Events'' ''events-section'' ''event'' (events c)"
| "panelMembers dev (Inr m) =
     (if length (mfunctions m) > 0
      then PHeader ''Functions'' ''functions-section'' #
           map (\<lambda>f. PMember ''function'' (name f) None) (mfunctions m)
      else [])"

text \<open>Lines 495 to 500.\<close>

definition isProtectedMember :: "jsval option \<Rightarrow> string \<Rightarrow> bool" where
  "isProtectedMember member ty =
     (if ty = ''constructor'' \<or> ty = ''method'' \<or> ty = ''property'' \<or> ty = ''event''
      then (case member of Some p \<Rightarrow> truthy p | None \<Rightarrow> False)
      else False)"

text \<open>
  A rendered line of the outline, lines 543 to 602: a header button, or a member's button
  with its type, name, target id, the flag that greys it out and the highlight flag.
\<close>

datatype outline_entry =
    OHeader string string
  | OMember string jsval string bool bool

fun entryProtected :: "outline_entry \<Rightarrow> bool" where
  "entryProtected (OHeader title secId) = False"
| "entryProtected (OMember ty nm i p h) = p"

fun renderEntry :: "bool \<Rightarrow> string option \<Rightarrow> panel_member \<Rightarrow> js_error + outline_entry" where
  "renderEntry dev h (PHeader title secId) = Inr (OHeader title secId)"
| "renderEntry dev h (PMember ty nm member) =
     (case detailId nm of
        Inl e \<Rightarrow> Inl e
      | Inr memberId \<Rightarrow>
          Inr (OMember ty nm memberId (dev \<and> isProtectedMember member ty)
                 (case h of Some s \<Rightarrow> s \<noteq> [] \<and> nm = JStr s | None \<Rightarrow> False)))"

text \<open>The component: \<open>None\<close> is the \<^verbatim>\<open>null\<close> it returns when no item is passed.\<close>

definition OnThisPagePanel ::
  "(IClass + IModule) option \<Rightarrow> bool \<Rightarrow> string option \<Rightarrow> js_error + outline_entry list option" where
  "OnThisPagePanel item dev h =
     (case item of
        None \<Rightarrow> Inr None
      | Some x \<Rightarrow>
          (case mapE (renderEntry dev h) (panelMembers dev x) of
             Inl e \<Rightarrow> Inl e
           | Inr es \<Rightarrow> Inr (Some es)))"

text \<open>Lines 1184 to 1213: the panel is mounted when an item is selected, and receives the
  class or module found under the selected name. The result is what the panel returns
  for one render: the lines as React elements. What the page lists after a render is
  given by \<open>showOutline\<close> below, which reconciles these lines with the list items
  already on the page.\<close>

definition outline :: "app_state \<Rightarrow> js_error + outline_entry list option" where
  "outline st =
     (case selectedItem st of
        None \<Rightarrow> Inr None
      | Some sel \<Rightarrow>
          OnThisPagePanel
            (case sel_type sel of
               TClass \<Rightarrow> map_option Inl (find (\<lambda>c. strictEq (name c) (sel_name sel)) (classes (data st)))
             | TModule \<Rightarrow> map_option Inr (find (\<lambda>m. strictEq (name m) (sel_name sel)) (modules (data st))))
            (devMode st) (highlightedMember st))"

section \<open>The sidebar\<close>

text \<open>
  Lines 1115 and 1135: \<^verbatim>\<open>xs.slice().sort((a, b) => a.name.localeCompare(b.name))\<close>.
  \<open>localeCompare\<close> is the platform's collation, a parameter here: it takes the
  receiver, a string, and any argument. A receiver that is not a string has no such
  method, and the comparison raises.
\<close>

definition compareNames ::
  "(string \<Rightarrow> jsval \<Rightarrow> int) \<Rightarrow> 'a IBaseItem_scheme \<Rightarrow> 'a IBaseItem_scheme \<Rightarrow> js_error + int" where
  "compareNames localeCompare a b =
     (case name a of JStr s \<Rightarrow> Inr (localeCompare s (name b)) | _ \<Rightarrow> Inl TypeError)"

text \<open>
  \<^verbatim>\<open>Array.prototype.sort\<close> with a comparator: a stable sort, here by insertion. The
  language leaves the order of the comparisons to the engine; with a comparator that is
  a total preorder and never raises, every stable sort gives this result.
\<close>

fun insertE :: "('a \<Rightarrow> 'a \<Rightarrow> js_error + int) \<Rightarrow> 'a \<Rightarrow> 'a list \<Rightarrow> js_error + 'a list" where
  "insertE cmp x [] = Inr [x]"
| "insertE cmp x (y # ys) =
     (case cmp x y of
        Inl e \<Rightarrow> Inl e
      | Inr r \<Rightarrow>
          if r \<le> 0 then Inr (x # y # ys)
          else (case insertE cmp x ys of Inl e \<Rightarrow> Inl e | Inr zs \<Rightarrow> Inr (y # zs)))"

fun sortE :: "('a \<Rightarrow> 'a \<Rightarrow> js_error + int) \<Rightarrow> 'a list \<Rightarrow> js_error + 'a list" where
  "sortE cmp [] = Inr []"
| "sortE cmp (x # xs) =
     (case sortE cmp xs of Inl e \<Rightarrow> Inl e | Inr ys \<Rightarrow> insertE cmp x ys)"

text \<open>An entry of a navigation list: the key and the label are the name.\<close>

record nav_entry =
  nav_key :: jsval
  nav_label :: jsval
  nav_active :: bool

definition navList ::
  "(string \<Rightarrow> jsval \<Rightarrow> int) \<Rightarrow> item_type \<Rightarrow> selection option \<Rightarrow> 'a IBaseItem_scheme list
     \<Rightarrow> js_error + nav_entry list" where
  "navList localeCompare ty sel xs =
     (case sortE (compareNames localeCompare) xs of
        Inl e \<Rightarrow> Inl e
      | Inr ys \<Rightarrow> Inr (map (\<lambda>x.
          \<lparr> nav_key = name x, nav_label = name x,
            nav_active = (case sel of
                            Some s \<Rightarrow> sel_type s = ty \<and> strictEq (sel_name s) (name x)
                          | None \<Rightarrow> False) \<rparr>) ys))"

definition sidebarClasses :: "(string \<Rightarrow> jsval \<Rightarrow> int) \<Rightarrow> app_state \<Rightarrow> js_error + nav_entry list" where
  "sidebarClasses localeCompare st = navList localeCompare TClass (selectedItem st) (classes (data st))"

definition sidebarModules :: "(string \<Rightarrow> jsval \<Rightarrow> int) \<Rightarrow> app_state \<Rightarrow> js_error + nav_entry list" where
  "sidebarModules localeCompare st = navList localeCompare TModule (selectedItem st) (modules (data st))"

text \<open>
  A document as the interfaces describe it, for the sidebar: every name is a string, and
  no two classes and no two modules share one. The collation is a total preorder.
\<close>

definition stringName :: "'a IBaseItem_scheme \<Rightarrow> bool" where
  "stringName x = (case name x of JStr s \<Rightarrow> True | _ \<Rightarrow> False)"

definition validNames :: "'a IBaseItem_scheme list \<Rightarrow> bool" where
  "validNames xs = (list_all stringName xs \<and> distinct (map name xs))"

definition collation :: "(string \<Rightarrow> jsval \<Rightarrow> int) \<Rightarrow> bool" where
  "collation lc =
     ((\<forall>a b. lc a (JStr b) \<le> 0 \<or> lc b (JStr a) \<le> 0) \<and>
      (\<forall>a b c. lc a (JStr b) \<le> 0 \<longrightarrow> lc b (JStr c) \<le> 0 \<longrightarrow> lc a (JStr c) \<le> 0))"

definition nameLe :: "(string \<Rightarrow> jsval \<Rightarrow> int) \<Rightarrow> jsval \<Rightarrow> jsval \<Rightarrow> bool" where
  "nameLe lc a b = (case a of JStr s \<Rightarrow> lc s b \<le> 0 | _ \<Rightarrow> False)"

section \<open>The page and the scroll timer\<close>

text \<open>
  The elements of the rendered page that carry an \<^verbatim>\<open>id\<close>, in document order: the
  heading of each section that is rendered and the cards under it. A card is listed with
  its id, the name of its member and its highlight flag.
\<close>

datatype element = Heading string | Card string jsval bool

fun elementId :: "element \<Rightarrow> string" where
  "elementId (Heading i) = i"
| "elementId (Card i nm h) = i"

definition sectionElements :: "string \<Rightarrow> 'a IBaseItem_scheme detail list \<Rightarrow> element list" where
  "sectionElements secId ds =
     (if length ds > 0
      then Heading secId # map (\<lambda>d. Card (d_id d) (name (d_member d)) (d_highlight d)) ds
      else [])"

fun pageElements :: "view \<Rightarrow> element list" where
  "pageElements (ClassView v) =
     sectionElements ''constructors-section'' (cv_constructors v) @
     sectionElements ''properties-section'' (cv_properties v) @
     sectionElements ''methods-section'' (cv_methods v) @
     sectionElements ''events-section'' (cv_events v)"
| "pageElements (ModuleView v) = sectionElements ''functions-section'' (mv_functions v)"
| "pageElements _ = []"

text \<open>\<^verbatim>\<open>document.getElementById\<close>: the first element in document order with the id,
  given with its position.\<close>

definition getElementById :: "element list \<Rightarrow> string \<Rightarrow> (nat \<times> element) option" where
  "getElementById els i = find (\<lambda>ne. elementId (snd ne) = i) (enumerate 0 els)"

text \<open>The callback of the timer, lines 662 to 667: the element scrolled into view, if any.\<close>

definition scrollTarget :: "view \<Rightarrow> string \<Rightarrow> (nat \<times> element) option" where
  "scrollTarget v memberName = getElementById (pageElements v) (replaceSpaces memberName @ ''-detail'')"

section \<open>Vocabulary for the mode toggle\<close>

text \<open>
  A card is public when its member's \<^verbatim>\<open>isProtected\<close> is falsy. \<open>userProjection\<close> takes
  from a view what dev mode adds: the cards of protected class members, the dev notes and
  TODOs of the item, and the label of the mode button.
\<close>

definition publicCard :: "'a IEvent_scheme detail \<Rightarrow> bool" where
  "publicCard d = (\<not> truthy (isProtected (d_member d)))"

fun userProjection :: "view \<Rightarrow> view" where
  "userProjection (ClassView v) =
     ClassView (v\<lparr> cv_devMode := False, cv_devNotes := None, cv_todos := None,
                  cv_constructors := filter publicCard (cv_constructors v),
                  cv_properties := filter publicCard (cv_properties v),
                  cv_methods := filter publicCard (cv_methods v),
                  cv_events := filter publicCard (cv_events v) \<rparr>)"
| "userProjection (ModuleView v) =
     ModuleView (v\<lparr> mv_devMode := False, mv_devNotes := None, mv_todos := None \<rparr>)"
| "userProjection (WelcomeView dev) = WelcomeView False"
| "userProjection v = v"

text \<open>The public members a view shows: per section, the members of its public cards.\<close>

fun publicMembers ::
  "view \<Rightarrow> IMember list \<times> IProperty list \<times> IMember list \<times> IEvent list \<times> IMember list" where
  "publicMembers (ClassView v) =
     (map d_member (filter publicCard (cv_constructors v)),
      map d_member (filter publicCard (cv_properties v)),
      map d_member (filter publicCard (cv_methods v)),
      map d_member (filter publicCard (cv_events v)), [])"
| "publicMembers (ModuleView v) =
     ([], [], [], [], map d_member (filter publicCard (mv_functions v)))"
| "publicMembers v = ([], [], [], [], [])"

section \<open>Vocabulary for the failed load\<close>

text \<open>The failures of the request itself: \<^verbatim>\<open>fetch\<close> rejects, the status is not OK, or the
  body is not JSON.\<close>

fun loadFails :: "fetch_result \<Rightarrow> bool" where
  "loadFails NetworkFailure = True"
| "loadFails (Response ok status b) = (\<not> ok \<or> b = BadJson)"

section \<open>An example document\<close>

text \<open>
  A payload with two classes and a module, and the document the loader makes of it
  (lemma \<open>normalize_exPayload\<close> below). The class \<open>Foo\<close> has two methods named
  \<open>Bar\<close> and a protected method; the module \<open>Util\<close> has a protected function and
  a \<open>functions\<close> field.
\<close>

definition exPayload :: jsval where
  "exPayload = JArr
     [JObj [(''name'', JStr ''Foo''),
            (''constructors'', JArr [JObj [(''name'', JStr ''Create'')]]),
            (''properties'', JArr [JObj [(''name'', JStr ''Value'')]]),
            (''methods'', JArr [JObj [(''name'', JStr ''Bar'')],
                                JObj [(''name'', JStr ''Bar'')],
                                JObj [(''name'', JStr ''Secret''), (''isProtected'', JBool True)]]),
            (''events'', JArr [JObj [(''name'', JStr ''Changed'')]])],
      JObj [(''name'', JStr ''Alpha''), (''events'', JArr [])],
      JObj [(''name'', JStr ''Util''),
            (''methods'', JArr [JObj [(''name'', JStr ''helper'')],
                                JObj [(''name'', JStr ''hidden''), (''isProtected'', JBool True)]]),
            (''functions'', JArr [JObj [(''name'', JStr ''unused'')]])]]"

definition exEvent :: "string \<Rightarrow> IEvent" where
  "exEvent nm =
     \<lparr> name = JStr nm, description = JStr '''', remarks = JArr [], examples = JArr [],
       devNotes = JArr [], todos = JArr [], requires = JArr [], params = JArr [],
       isProtected = JBool False \<rparr>"

definition exMember :: "string \<Rightarrow> bool \<Rightarrow> IMember" where
  "exMember nm p =
     \<lparr> name = JStr nm, description = JStr '''', remarks = JArr [], examples = JArr [],
       devNotes = JArr [], todos = JArr [], requires = JArr [], params = JArr [],
       isProtected = JBool p, returns = defaultReturns, throws = JArr [],
       isStatic = JBool False, isDefaultMember = JBool False, deprecation = defaultDeprecation \<rparr>"

definition exProperty :: "string \<Rightarrow> IProperty" where
  "exProperty nm =
     \<lparr> name = JStr nm, description = JStr '''', remarks = JArr [], examples = JArr [],
       devNotes = JArr [], todos = JArr [], requires = JArr [], params = JArr [],
       isProtected = JBool False, returns = defaultReturns, throws = JArr [],
       isStatic = JBool False, isDefaultMember = JBool False, deprecation = defaultDeprecation,
       access = JStr ''ReadWrite'' \<rparr>"

definition exFoo :: IClass where
  "exFoo =
     \<lparr> name = JStr ''Foo'', description = JStr '''', remarks = JArr [], examples = JArr [],
       devNotes = JArr [], todos = JArr [], requires = JArr [], fileName = JStr '''',
       implements = JArr [],
       constructors = [exMember ''Create'' False],
       properties = [exProperty ''Value''],
       methods = [exMember ''Bar'' False, exMember ''Bar'' False, exMember ''Secret'' True],
       events = [exEvent ''Changed''] \<rparr>"

definition exAlpha :: IClass where
  "exAlpha =
     \<lparr> name = JStr ''Alpha'', description = JStr '''', remarks = JArr [], examples = JArr [],
       devNotes = JArr [], todos = JArr [], requires = JArr [], fileName = JStr '''',
       implements = JArr [], constructors = [], properties = [], methods = [], events = [] \<rparr>"

definition exUtil :: IModule where
  "exUtil =
     \<lparr> name = JStr ''Util'', description = JStr '''', remarks = JArr [], examples = JArr [],
       devNotes = JArr [], todos = JArr [], requires = JArr [], fileName = JStr '''',
       mfunctions = [exMember ''helper'' False, exMember ''hidden'' True] \<rparr>"

definition exData :: IData where
  "exData = \<lparr> classes = [exFoo, exAlpha], modules = [exUtil] \<rparr>"

definition exNet :: "nat \<Rightarrow> fetch_result" where
  "exNet n = Response True 200 (Json exPayload)"

text \<open>The state of the page once the example is loaded, with no query parameter.\<close>

definition exLoaded :: app_state where
  "exLoaded =
     \<lparr> selectedItem = None, data = exData, loading = False, error = None,
       devMode = False, highlightedMember = None \<rparr>"

text \<open>A collation for the example: strings compared code unit by code unit.\<close>

fun codeUnitCompare :: "string \<Rightarrow> string \<Rightarrow> int" where
  "codeUnitCompare [] [] = 0"
| "codeUnitCompare [] (y # ys) = -1"
| "codeUnitCompare (x # xs) [] = 1"
| "codeUnitCompare (x # xs) (y # ys) =
     (if (of_char x :: nat) < of_char y then -1
      else if (of_char y :: nat) < of_char x then 1
      else codeUnitCompare xs ys)"

definition exCompare :: "string \<Rightarrow> jsval \<Rightarrow> int" where
  "exCompare s b = (case b of JStr t \<Rightarrow> codeUnitCompare s t | _ \<Rightarrow> 0)"

text \<open>The example after the deep link \<^verbatim>\<open>?q=Foo.Bar\<close> (lemma \<open>deep_link_example\<close>), in
  user mode and in dev mode, and after the deep link \<^verbatim>\<open>?q=Util\<close> in dev mode.\<close>

definition exSelected :: app_state where
  "exSelected =
     exLoaded\<lparr> selectedItem := Some \<lparr>sel_type = TClass, sel_name = JStr ''Foo''\<rparr>,
                highlightedMember := Some ''Bar'' \<rparr>"

definition exSelectedDev :: app_state where
  "exSelectedDev = exSelected\<lparr>devMode := True\<rparr>"

definition exUtilDev :: app_state where
  "exUtilDev =
     exLoaded\<lparr> selectedItem := Some \<lparr>sel_type = TModule, sel_name = JStr ''Util''\<rparr>,
                devMode := True \<rparr>"

section \<open>The outline on the page: keyed children\<close>

text \<open>
  \<open>OnThisPagePanel\<close> returns its lines as the children of one \<^verbatim>\<open><ul>\<close>, each an
  \<^verbatim>\<open><li>\<close> with a key: the section id for a header (line 546), the target id for a
  member (line 589). React keeps the list items of the page from one render to the next
  and matches the new children to the old ones by key. What follows is React's
  reconciliation of a keyed array of children and its commit of deletions and
  placements (react-dom 18, the version in package.json), for children that are all of
  one element type, as here.

  A fiber is a current child: its key and the list item it owns. \<open>nodes\<close> are the list
  items under the \<^verbatim>\<open><ul>\<close> in document order, each with the line it shows; \<open>fresh\<close> is
  the next unused item.
\<close>

fun entryKey :: "outline_entry \<Rightarrow> string" where
  "entryKey (OHeader title secId) = secId"
| "entryKey (OMember ty nm i p h) = i"

record mounted =
  fibers :: "(string \<times> nat) list"
  nodes :: "(nat \<times> outline_entry) list"
  fresh :: nat

definition emptyMounted :: mounted where
  "emptyMounted = \<lparr> fibers = [], nodes = [], fresh = 0 \<rparr>"

text \<open>The first loop: old and new children are walked together while their keys agree.\<close>

fun samePrefix :: "(string \<times> nat) list \<Rightarrow> outline_entry list \<Rightarrow> nat" where
  "samePrefix ((k, n) # fs) (e # es) = (if k = entryKey e then Suc (samePrefix fs es) else 0)"
| "samePrefix fs es = 0"

text \<open>
  \<open>mapRemainingChildren\<close>: the old children left over, by key, each with its index. A
  later child replaces an earlier one of the same key, as \<^verbatim>\<open>Map.set\<close> does.
\<close>

fun mapSet :: "string \<Rightarrow> 'v \<Rightarrow> (string \<times> 'v) list \<Rightarrow> (string \<times> 'v) list" where
  "mapSet k v [] = [(k, v)]"
| "mapSet k v ((k', v') # m) = (if k = k' then (k, v) # m else (k', v') # mapSet k v m)"

fun mapRemainingChildren ::
  "nat \<Rightarrow> (string \<times> nat) list \<Rightarrow> (string \<times> nat \<times> nat) list \<Rightarrow> (string \<times> nat \<times> nat) list" where
  "mapRemainingChildren i [] m = m"
| "mapRemainingChildren i ((k, n) # fs) m = mapRemainingChildren (Suc i) fs (mapSet k (i, n) m)"

text \<open>
  The second loop, over the new children left over: \<open>updateFromMap\<close> and
  \<open>placeChild\<close>. A child whose key is in the map takes over that old child's list
  item, and the key leaves the map; it is marked for placement when its old index is
  below the last placed index. A child whose key is not in the map gets a fresh list
  item, marked for placement. The result lists each new child as key, list item,
  placement mark and line, and gives the map and the counter that remain.
\<close>

fun updateFromMap ::
  "(string \<times> nat \<times> nat) list \<Rightarrow> nat \<Rightarrow> nat \<Rightarrow> outline_entry list
     \<Rightarrow> (string \<times> nat \<times> bool \<times> outline_entry) list \<times> (string \<times> nat \<times> nat) list \<times> nat" where
  "updateFromMap m lastPlacedIndex fr [] = ([], m, fr)"
| "updateFromMap m lastPlacedIndex fr (e # es) =
     (case map_of m (entryKey e) of
        Some (oldIndex, n) \<Rightarrow>
          (let m' = filter (\<lambda>kv. fst kv \<noteq> entryKey e) m in
           if oldIndex < lastPlacedIndex
           then (case updateFromMap m' lastPlacedIndex fr es of
                   (ps, left, fr') \<Rightarrow> ((entryKey e, n, True, e) # ps, left, fr'))
           else (case updateFromMap m' oldIndex fr es of
                   (ps, left, fr') \<Rightarrow> ((entryKey e, n, False, e) # ps, left, fr')))
      | None \<Rightarrow>
          (case updateFromMap m lastPlacedIndex (Suc fr) es of
             (ps, left, fr') \<Rightarrow> ((entryKey e, fr, True, e) # ps, left, fr')))"

text \<open>
  The commit. A list item that is kept shows its new line. A child marked for placement
  is inserted before the list item of the next sibling that is not itself marked, or
  appended to the \<^verbatim>\<open><ul>\<close> when there is none; a list item that moves leaves its old
  place.
\<close>

definition setLine :: "nat \<Rightarrow> outline_entry \<Rightarrow> (nat \<times> outline_entry) list \<Rightarrow> (nat \<times> outline_entry) list" where
  "setLine n e ns = map (\<lambda>x. if fst x = n then (n, e) else x) ns"

fun setLines :: "(nat \<times> outline_entry) list \<Rightarrow> (nat \<times> outline_entry) list \<Rightarrow> (nat \<times> outline_entry) list" where
  "setLines [] ns = ns"
| "setLines ((n, e) # us) ns = setLines us (setLine n e ns)"

definition removeNodes :: "nat list \<Rightarrow> (nat \<times> outline_entry) list \<Rightarrow> (nat \<times> outline_entry) list" where
  "removeNodes ds ns = filter (\<lambda>x. fst x \<notin> set ds) ns"

fun hostSibling :: "(string \<times> nat \<times> bool \<times> outline_entry) list \<Rightarrow> nat option" where
  "hostSibling [] = None"
| "hostSibling ((k, n, placement, e) # ps) = (if placement then hostSibling ps else Some n)"

fun insertBefore ::
  "nat \<times> outline_entry \<Rightarrow> nat option \<Rightarrow> (nat \<times> outline_entry) list \<Rightarrow> (nat \<times> outline_entry) list" where
  "insertBefore x None ns = ns @ [x]"
| "insertBefore x (Some b) [] = [x]"
| "insertBefore x (Some b) (y # ys) =
     (if fst y = b then x # y # ys else y # insertBefore x (Some b) ys)"

fun commitPlacements ::
  "(string \<times> nat \<times> bool \<times> outline_entry) list \<Rightarrow> (nat \<times> outline_entry) list
     \<Rightarrow> (nat \<times> outline_entry) list" where
  "commitPlacements [] ns = ns"
| "commitPlacements ((k, n, placement, e) # ps) ns =
     commitPlacements ps
       (if placement then insertBefore (n, e) (hostSibling ps) (removeNodes [n] ns)
        else setLine n e ns)"

text \<open>
  \<open>reconcileChildrenArray\<close> and the commit. When the new children run out in the first
  loop, all the old children left over are deleted. Otherwise the second loop runs
  (on an empty map when the old children ran out), and the old children still in the
  map are deleted: an old child whose key a later old child took in the map is neither
  reused nor deleted, and its list item stays on the page.
\<close>

definition reconcileChildren :: "mounted \<Rightarrow> outline_entry list \<Rightarrow> mounted" where
  "reconcileChildren mt es =
     (let p = samePrefix (fibers mt) es;
          kept = take p (fibers mt);
          oldRest = drop p (fibers mt);
          newRest = drop p es;
          ns1 = setLines (zip (map snd kept) (take p es)) (nodes mt)
      in if newRest = []
         then \<lparr> fibers = kept, nodes = removeNodes (map snd oldRest) ns1, fresh = fresh mt \<rparr>
         else (case updateFromMap (mapRemainingChildren p oldRest []) (p - 1) (fresh mt) newRest of
                 (ps, left, fr) \<Rightarrow>
                   \<lparr> fibers = kept @ map (\<lambda>q. (fst q, fst (snd q))) ps,
                     nodes = commitPlacements ps (removeNodes (map (\<lambda>kv. snd (snd kv)) left) ns1),
                     fresh = fr \<rparr>))"

text \<open>
  A render of the panel on the page: the lines it returns for the state are reconciled
  with what is mounted. With no panel, or no line, nothing is mounted. \<open>renders\<close> is
  a sequence of renders, one per state.
\<close>

definition showOutline :: "mounted \<Rightarrow> app_state \<Rightarrow> js_error + mounted" where
  "showOutline mt st =
     (case outline st of
        Inl e \<Rightarrow> Inl e
      | Inr None \<Rightarrow> Inr emptyMounted
      | Inr (Some es) \<Rightarrow> Inr (reconcileChildren mt es))"

fun renders :: "mounted \<Rightarrow> app_state list \<Rightarrow> js_error + mounted" where
  "renders mt [] = Inr mt"
| "renders mt (st # sts) =
     (case showOutline mt st of Inl e \<Rightarrow> Inl e | Inr mt' \<Rightarrow> renders mt' sts)"

text \<open>The lines the page lists, and among them the entries of public members: the
  member entries that are not greyed.\<close>

definition listed :: "mounted \<Rightarrow> outline_entry list" where
  "listed mt = map snd (nodes mt)"

fun publicEntry :: "outline_entry \<Rightarrow> bool" where
  "publicEntry (OHeader title secId) = False"
| "publicEntry (OMember ty nm i p h) = (\<not> p)"

fun entryName :: "outline_entry \<Rightarrow> jsval" where
  "entryName (OHeader title secId) = JStr title"
| "entryName (OMember ty nm i p h) = nm"

definition exDupPayload :: jsval where
  "exDupPayload = JArr
     [JObj [(''name'', JStr ''Dup''),
            (''constructors'', JArr []),
            (''methods'', JArr [JObj [(''name'', JStr ''Secret''), (''isProtected'', JBool True)],
                                JObj [(''name'', JStr ''Bar'')],
                                JObj [(''name'', JStr ''Bar'')]])]]"

definition exDup :: IClass where
  "exDup =
     \<lparr> name = JStr ''Dup'', description = JStr '''', remarks = JArr [], examples = JArr [],
       devNotes = JArr [], todos = JArr [], requires = JArr [], fileName = JStr '''',
       implements = JArr [], constructors = [], properties = [],
       methods = [exMember ''Secret'' True, exMember ''Bar'' False, exMember ''Bar'' False],
       events = [] \<rparr>"

definition exDupNet :: "nat \<Rightarrow> fetch_result" where
  "exDupNet n = Response True 200 (Json exDupPayload)"

definition exDupUser :: app_state where
  "exDupUser =
     \<lparr> selectedItem = Some \<lparr>sel_type = TClass, sel_name = JStr ''Dup''\<rparr>,
       data = \<lparr> classes = [exDup], modules = [] \<rparr>, loading = False, error = None,
       devMode = False, highlightedMember = None \<rparr>"

section \<open>Properties of the loader\<close>

lemmas loader_defs =
  normalize_def emptyData_def normalizeItem_def isClass_def get_def nullish_def
  normalizeClass_def normalizeModule_def pushEach_def normalizeMember_def
  normalizeProperty_def normalizeEvent_def js_or_def

lemma property_defined_iff:
  "is_json item \<Longrightarrow> (property item k \<noteq> JUndefined) = carries item k"
proof (cases item)
  case (JObj kvs)
  assume j: "is_json item"
  show ?thesis
  proof (cases "map_of kvs k")
    case None
    then have "k \<notin> fst ` set kvs" by (simp add: map_of_eq_None_iff)
    then show ?thesis using JObj None by simp
  next
    case (Some v)
    then have "(k, v) \<in> set kvs" by (rule map_of_SomeD)
    then have "v \<in> snd ` set kvs" and "k \<in> fst ` set kvs" by force+
    then show ?thesis using JObj Some j by auto
  qed
qed simp_all

lemma isClass_json:
  "is_json item \<Longrightarrow> item \<noteq> JNull \<Longrightarrow> isClass item = Inr (classLike item)"
  using property_defined_iff [of item "''constructors''"] property_defined_iff [of item "''events''"]
  by (cases item) (auto simp: isClass_def get_def nullish_def classLike_def)

lemma isClass_nullish: "nullish item \<Longrightarrow> isClass item = Inl TypeError"
  by (simp add: isClass_def get_def)

lemma isClass_Inr: "isClass item = Inr b \<Longrightarrow> \<not> nullish item"
  by (auto simp: isClass_def get_def split: if_splits)

lemma normalizeItem_cases:
  "normalizeItem item = Inr r \<Longrightarrow>
     (isClass item = Inr True \<and> (\<exists>c. r = Inl c \<and> normalizeClass item = Inr c)) \<or>
     (isClass item = Inr False \<and> (\<exists>m. r = Inr m \<and> normalizeModule item = Inr m))"
  by (auto simp: normalizeItem_def split: sum.splits bool.splits)

lemma forEachItem_split:
  "forEachItem items d = Inr d' \<Longrightarrow> (\<forall>i \<in> set items. is_json i) \<Longrightarrow>
   (\<exists>cs ms. classes d' = classes d @ cs \<and> modules d' = modules d @ ms \<and>
      list_all2 (\<lambda>i c. normalizeClass i = Inr c) (filter classLike items) cs \<and>
      list_all2 (\<lambda>i m. normalizeModule i = Inr m) (filter (\<lambda>i. \<not> classLike i) items) ms)"
proof (induction items arbitrary: d)
  case Nil
  then show ?case by simp
next
  case (Cons item rest)
  from Cons.prems(1) obtain r where r: "normalizeItem item = Inr r"
    by (auto split: sum.splits)
  have nn: "item \<noteq> JNull"
    using normalizeItem_cases [OF r] isClass_Inr [of item] by (auto simp: nullish_def)
  have j: "is_json item" using Cons.prems(2) by simp
  have ic: "isClass item = Inr (classLike item)" using isClass_json [OF j nn] .
  show ?case
  proof (cases r)
    case (Inl c)
    with r Cons.prems have rest: "forEachItem rest (d\<lparr>classes := classes d @ [c]\<rparr>) = Inr d'"
      by simp
    from Cons.IH [OF rest] Cons.prems(2) obtain cs ms where
      "classes d' = (classes d @ [c]) @ cs" "modules d' = modules d @ ms"
      "list_all2 (\<lambda>i c. normalizeClass i = Inr c) (filter classLike rest) cs"
      "list_all2 (\<lambda>i m. normalizeModule i = Inr m) (filter (\<lambda>i. \<not> classLike i) rest) ms"
      by auto
    moreover have "classLike item" "normalizeClass item = Inr c"
      using normalizeItem_cases [OF r] ic Inl by auto
    ultimately show ?thesis by auto
  next
    case (Inr m)
    with r Cons.prems have rest: "forEachItem rest (d\<lparr>modules := modules d @ [m]\<rparr>) = Inr d'"
      by simp
    from Cons.IH [OF rest] Cons.prems(2) obtain cs ms where
      "classes d' = classes d @ cs" "modules d' = (modules d @ [m]) @ ms"
      "list_all2 (\<lambda>i c. normalizeClass i = Inr c) (filter classLike rest) cs"
      "list_all2 (\<lambda>i m. normalizeModule i = Inr m) (filter (\<lambda>i. \<not> classLike i) rest) ms"
      by auto
    moreover have "\<not> classLike item" "normalizeModule item = Inr m"
      using normalizeItem_cases [OF r] ic Inr by auto
    ultimately show ?thesis by auto
  qed
qed

lemma normalizeMember_total: "\<not> nullish m \<Longrightarrow> \<exists>r. normalizeMember m = Inr r"
  by (simp add: normalizeMember_def get_def)

lemma normalizeProperty_total: "\<not> nullish p \<Longrightarrow> \<exists>r. normalizeProperty p = Inr r"
  by (simp add: normalizeProperty_def get_def)

lemma normalizeEvent_total: "\<not> nullish ev \<Longrightarrow> \<exists>r. normalizeEvent ev = Inr r"
  by (simp add: normalizeEvent_def get_def)

lemma mapE_total: "(\<forall>x \<in> set xs. \<exists>y. f x = Inr y) \<Longrightarrow> \<exists>ys. mapE f xs = Inr ys"
  by (induction xs) (auto split: sum.splits)

lemma pushEach_total:
  assumes "\<forall>x \<in> set (elements v). \<exists>y. f x = Inr y"
  shows "\<exists>ys. pushEach f v = Inr ys"
  using assms mapE_total [of _ f] by (cases v) (auto simp: pushEach_def elements_def)

text \<open>
  The loader accepts every array whose elements are not \<open>null\<close> and whose member
  arrays hold no \<open>null\<close>; nothing else in a payload can make it raise.
\<close>

lemma normalizeItem_total:
  assumes "\<not> nullish item"
    and "\<forall>k \<in> set [''constructors'', ''properties'', ''methods'', ''events''].
           \<forall>x \<in> set (elements (property item k)). \<not> nullish x"
  shows "\<exists>r. normalizeItem item = Inr r"
proof -
  from assms(1) have "\<exists>b. isClass item = Inr b"
    by (auto simp: isClass_def get_def)
  then obtain b where b: "isClass item = Inr b" ..
  from assms(2) obtain cs ps ms es where
    "pushEach normalizeMember (property item ''constructors'') = Inr cs"
    "pushEach normalizeProperty (property item ''properties'') = Inr ps"
    "pushEach normalizeMember (property item ''methods'') = Inr ms"
    "pushEach normalizeEvent (property item ''events'') = Inr es"
    using pushEach_total [of "property item ''constructors''" normalizeMember]
      pushEach_total [of "property item ''properties''" normalizeProperty]
      pushEach_total [of "property item ''methods''" normalizeMember]
      pushEach_total [of "property item ''events''" normalizeEvent]
      normalizeMember_total normalizeProperty_total normalizeEvent_total
    by (metis list.set_intros(1,2))
  then show ?thesis
    using b by (cases b) (simp_all add: normalizeItem_def normalizeClass_def normalizeModule_def)
qed

lemma forEachItem_total:
  "(\<forall>item \<in> set items. \<exists>r. normalizeItem item = Inr r) \<Longrightarrow> \<exists>d'. forEachItem items d = Inr d'"
  by (induction items arbitrary: d) (auto split: sum.splits)

lemma normalize_total:
  assumes "\<forall>item \<in> set items. \<not> nullish item \<and>
             (\<forall>k \<in> set [''constructors'', ''properties'', ''methods'', ''events''].
                \<forall>x \<in> set (elements (property item k)). \<not> nullish x)"
  shows "\<exists>d. normalize (JArr items) = Inr d"
  using forEachItem_total [of items emptyData] normalizeItem_total assms
  by (simp add: normalize_def)

text \<open>
  C2. An element of the payload that is a JSON value other than \<open>null\<close> is taken for a
  class exactly when it carries a \<open>constructors\<close> or an \<open>events\<close> field. Whenever
  the loader accepts the array, the classes it stores are the normalized elements that
  carry one of the two fields, in order, and the modules are the normalized other
  elements, in order: each element is classified by its own two fields, whatever its
  name.
\<close>

theorem classified_by_constructors_or_events:
  assumes "\<forall>i \<in> set items. is_json i"
  shows "(\<forall>i \<in> set items. i \<noteq> JNull \<longrightarrow> isClass i = Inr (classLike i)) \<and>
         (\<forall>d. normalize (JArr items) = Inr d \<longrightarrow>
            list_all2 (\<lambda>i c. normalizeClass i = Inr c) (filter classLike items) (classes d) \<and>
            list_all2 (\<lambda>i m. normalizeModule i = Inr m)
              (filter (\<lambda>i. \<not> classLike i) items) (modules d))"
proof -
  have a: "isClass i = Inr (classLike i)" if "i \<in> set items" "i \<noteq> JNull" for i
    using isClass_json [of i] assms that by simp
  have b: "list_all2 (\<lambda>i c. normalizeClass i = Inr c) (filter classLike items) (classes d) \<and>
         list_all2 (\<lambda>i m. normalizeModule i = Inr m) (filter (\<lambda>i. \<not> classLike i) items) (modules d)"
    if "normalize (JArr items) = Inr d" for d
    using forEachItem_split [of items emptyData d] assms that
    by (auto simp: normalize_def emptyData_def)
  from a b show ?thesis by blast
qed

theorem classified_by_constructors_or_events_witness:
  "is_json (JArr [JObj [(''name'', JStr ''X''), (''events'', JArr [])],
                  JObj [(''name'', JStr ''X''), (''methods'', JArr [])]]) \<and>
   isClass (JObj [(''name'', JStr ''X''), (''events'', JArr [])]) = Inr True \<and>
   isClass (JObj [(''name'', JStr ''X''), (''methods'', JArr [])]) = Inr False \<and>
   \<not> isl (normalize (JArr [JObj [(''name'', JStr ''X''), (''events'', JArr [])],
                  JObj [(''name'', JStr ''X''), (''methods'', JArr [])]])) \<and>
   list_all2 (\<lambda>i c. normalizeClass i = Inr c)
     [JObj [(''name'', JStr ''X''), (''events'', JArr [])]]
     (classes (projr (normalize (JArr [JObj [(''name'', JStr ''X''), (''events'', JArr [])],
                  JObj [(''name'', JStr ''X''), (''methods'', JArr [])]])))) \<and>
   list_all2 (\<lambda>i m. normalizeModule i = Inr m)
     [JObj [(''name'', JStr ''X''), (''methods'', JArr [])]]
     (modules (projr (normalize (JArr [JObj [(''name'', JStr ''X''), (''events'', JArr [])],
                  JObj [(''name'', JStr ''X''), (''methods'', JArr [])]]))))"
proof -
  let ?a = "JObj [(''name'', JStr ''X''), (''events'', JArr [])]"
  let ?b = "JObj [(''name'', JStr ''X''), (''methods'', JArr [])]"
  have j: "\<forall>i \<in> set [?a, ?b]. is_json i" by simp
  have ok: "\<not> isl (normalize (JArr [?a, ?b]))" by (simp add: loader_defs)
  then have r: "normalize (JArr [?a, ?b]) = Inr (projr (normalize (JArr [?a, ?b])))" by simp
  have f: "filter classLike [?a, ?b] = [?a]" "filter (\<lambda>i. \<not> classLike i) [?a, ?b] = [?b]"
    "classLike ?a = True" "classLike ?b = False"
    by (simp_all add: classLike_def)
  note th = classified_by_constructors_or_events [OF j]
  from th have "isClass ?a = Inr (classLike ?a)" "isClass ?b = Inr (classLike ?b)" by simp_all
  moreover from th r have
    "list_all2 (\<lambda>i c. normalizeClass i = Inr c) (filter classLike [?a, ?b])
       (classes (projr (normalize (JArr [?a, ?b]))))"
    "list_all2 (\<lambda>i m. normalizeModule i = Inr m) (filter (\<lambda>i. \<not> classLike i) [?a, ?b])
       (modules (projr (normalize (JArr [?a, ?b]))))"
    by blast+
  ultimately show ?thesis using ok f by simp
qed

lemma mapE_Inr: "mapE f xs = Inr ys \<Longrightarrow> list_all2 (\<lambda>x y. f x = Inr y) xs ys"
  by (induction xs arbitrary: ys) (auto split: sum.splits)

lemma pushEach_Inr:
  "pushEach f v = Inr ys \<Longrightarrow> list_all2 (\<lambda>x y. f x = Inr y) (elements v) ys"
  by (cases v) (auto simp: pushEach_def elements_def dest: mapE_Inr)

lemma defaulted_js_or:
  "d \<noteq> JUndefined \<Longrightarrow> defaulted raw k d (js_or (property raw k) d)"
  by (auto simp: defaulted_def js_or_def)

lemma defaults_defined [simp]:
  "defaultReturns \<noteq> JUndefined" "defaultDeprecation \<noteq> JUndefined"
  by (simp_all add: defaultReturns_def defaultDeprecation_def)

lemma get_Inr: "get x k = Inr v \<Longrightarrow> v = property x k"
  by (auto simp: get_def split: if_splits)

lemma normalizeMember_ok: "normalizeMember x = Inr f \<Longrightarrow> memberOk x f"
  by (auto simp: normalizeMember_def memberOk_def eventOk_def baseOk_def defaulted_js_or
           split: sum.splits dest: get_Inr)

lemma normalizeProperty_ok: "normalizeProperty x = Inr f \<Longrightarrow> propertyOk x f"
  by (auto simp: normalizeProperty_def propertyOk_def memberOk_def eventOk_def baseOk_def
                 defaulted_js_or split: sum.splits dest: get_Inr)

lemma normalizeEvent_ok: "normalizeEvent x = Inr f \<Longrightarrow> eventOk x f"
  by (auto simp: normalizeEvent_def eventOk_def baseOk_def defaulted_js_or split: sum.splits
           dest: get_Inr)

lemma pushEach_ok:
  assumes "pushEach f v = Inr ys" and "\<And>x y. f x = Inr y \<Longrightarrow> P x y"
  shows "list_all2 P (elements v) ys"
  using pushEach_Inr [OF assms(1)] assms(2) by (auto elim: list_all2_mono)

lemma normalizeClass_ok: "normalizeClass item = Inr c \<Longrightarrow> classOk item c"
  unfolding normalizeClass_def
  by (auto simp: classOk_def baseOk_def defaulted_js_or split: sum.splits
           intro: pushEach_ok normalizeMember_ok normalizeProperty_ok normalizeEvent_ok)

lemma normalizeModule_ok: "normalizeModule item = Inr m \<Longrightarrow> moduleOk item m"
  unfolding normalizeModule_def
  by (auto simp: moduleOk_def baseOk_def defaulted_js_or split: sum.splits
           intro: pushEach_ok normalizeMember_ok)

lemma normalizeModule_functions:
  "normalizeModule item = Inr m \<Longrightarrow> pushEach normalizeMember (property item ''methods'') = Inr (mfunctions m)"
  by (auto simp: normalizeModule_def split: sum.splits)

lemma normalizeItem_ignores_functions:
  assumes "\<not> nullish a" and "\<not> nullish b"
    and eq: "\<And>k. k \<noteq> ''functions'' \<Longrightarrow> property a k = property b k"
  shows "normalizeItem a = normalizeItem b"
proof -
  have "isClass a = isClass b"
    using assms(1,2) by (simp add: isClass_def get_def eq)
  moreover have "normalizeClass a = normalizeClass b"
    by (simp add: normalizeClass_def eq cong: sum.case_cong)
  moreover have "normalizeModule a = normalizeModule b"
    by (simp add: normalizeModule_def eq cong: sum.case_cong)
  ultimately show ?thesis unfolding normalizeItem_def by (simp only:)
qed

text \<open>
  C9. When a record of the payload is normalized as a module, the functions of the module
  are the normalized entries of the record's \<open>methods\<close> array, in order, and none when
  \<open>methods\<close> is missing; a record that differs from it only under the key \<open>functions\<close>
  is normalized to the same module.
\<close>

theorem module_functions_from_methods:
  assumes "normalizeItem item = Inr (Inr m)"
  shows "list_all2 (\<lambda>x f. normalizeMember x = Inr f) (elements (property item ''methods'')) (mfunctions m) \<and>
         (property item ''methods'' = JUndefined \<longrightarrow> mfunctions m = []) \<and>
         (\<forall>item'. \<not> nullish item' \<and> (\<forall>k. k \<noteq> ''functions'' \<longrightarrow> property item' k = property item k)
            \<longrightarrow> normalizeItem item' = Inr (Inr m))"
proof -
  from normalizeItem_cases [OF assms] have m: "normalizeModule item = Inr m"
    and nn: "\<not> nullish item" by (auto dest: isClass_Inr)
  have l: "list_all2 (\<lambda>x f. normalizeMember x = Inr f) (elements (property item ''methods'')) (mfunctions m)"
    using pushEach_Inr [OF normalizeModule_functions [OF m]] .
  then have e: "property item ''methods'' = JUndefined \<longrightarrow> mfunctions m = []"
    by (auto simp: elements_def)
  have "normalizeItem item' = Inr (Inr m)"
    if "\<not> nullish item'" "\<forall>k. k \<noteq> ''functions'' \<longrightarrow> property item' k = property item k" for item'
    using normalizeItem_ignores_functions [of item' item] that nn assms by simp
  with l e show ?thesis by blast
qed

theorem module_functions_from_methods_witness:
  "normalizeItem (JObj [(''name'', JStr ''M''), (''functions'', JArr [JObj [(''name'', JStr ''f'')]])])
     = Inr (Inr \<lparr> name = JStr ''M'', description = JStr '''', remarks = JArr [], examples = JArr [],
                  devNotes = JArr [], todos = JArr [], requires = JArr [], fileName = JStr '''',
                  mfunctions = [] \<rparr>) \<and>
   property (JObj [(''name'', JStr ''M''), (''functions'', JArr [JObj [(''name'', JStr ''f'')]])]) ''methods''
     = JUndefined \<and>
   normalizeItem (JObj [(''name'', JStr ''M'')])
     = Inr (Inr \<lparr> name = JStr ''M'', description = JStr '''', remarks = JArr [], examples = JArr [],
                  devNotes = JArr [], todos = JArr [], requires = JArr [], fileName = JStr '''',
                  mfunctions = [] \<rparr>)"
proof -
  let ?item = "JObj [(''name'', JStr ''M''), (''functions'', JArr [JObj [(''name'', JStr ''f'')]])]"
  let ?m = "\<lparr> name = JStr ''M'', description = JStr '''', remarks = JArr [], examples = JArr [],
              devNotes = JArr [], todos = JArr [], requires = JArr [], fileName = JStr '''',
              mfunctions = [] \<rparr>"
  have n: "normalizeItem ?item = Inr (Inr ?m)" by (simp add: loader_defs)
  have p: "property ?item ''methods'' = JUndefined" by simp
  have "\<not> nullish (JObj [(''name'', JStr ''M'')]) \<and>
        (\<forall>k. k \<noteq> ''functions'' \<longrightarrow> property (JObj [(''name'', JStr ''M'')]) k = property ?item k)"
    by (simp add: nullish_def)
  with module_functions_from_methods [OF n] have "normalizeItem (JObj [(''name'', JStr ''M'')]) = Inr (Inr ?m)"
    by blast
  with n p show ?thesis by blast
qed

text \<open>
  C3, as the loader does it. On the item and on each of its members, in the order of the
  payload, every field the loader fills with \<^verbatim>\<open>||\<close> is defined after normalization: it
  holds the default when the payload's record has no such key or a falsy value under it
  (the empty list, the empty string, \<open>false\<close>, the \<open>Variant\<close> return descriptor, the
  inactive deprecation marker, \<open>ReadWrite\<close>), and the payload's value, copied as it is,
  otherwise. So what the payload gives for \<open>params\<close>, \<open>returns\<close> and \<open>throws\<close> is
  copied with its entries as they are, and the \<open>name\<close> is copied as it is.
\<close>

theorem optional_fields_defaulted:
  assumes "normalizeItem item = Inr r"
  shows "case r of Inl c \<Rightarrow> classOk item c | Inr m \<Rightarrow> moduleOk item m"
  using normalizeItem_cases [OF assms] normalizeClass_ok normalizeModule_ok by auto

theorem optional_fields_defaulted_witness:
  "normalizeItem (JObj [(''name'', JStr ''C''), (''constructors'', JArr [JObj [(''name'', JStr ''Create''),
        (''params'', JArr [JObj [(''name'', JStr ''x''), (''type'', JStr ''Long'')]])]])])
     = Inr (Inl \<lparr> name = JStr ''C'', description = JStr '''', remarks = JArr [], examples = JArr [],
                  devNotes = JArr [], todos = JArr [], requires = JArr [], fileName = JStr '''',
                  implements = JArr [],
                  constructors =
                    [\<lparr> name = JStr ''Create'', description = JStr '''', remarks = JArr [],
                       examples = JArr [], devNotes = JArr [], todos = JArr [], requires = JArr [],
                       params = JArr [JObj [(''name'', JStr ''x''), (''type'', JStr ''Long'')]],
            isProtected = JBool False, returns = defaultReturns,
                       throws = JArr [], isStatic = JBool False, isDefaultMember = JBool False,
                       deprecation = defaultDeprecation \<rparr>],
                  properties = [], methods = [], events = [] \<rparr>) \<and>
   classOk (JObj [(''name'', JStr ''C''), (''constructors'', JArr [JObj [(''name'', JStr ''Create''),
        (''params'', JArr [JObj [(''name'', JStr ''x''), (''type'', JStr ''Long'')]])]])])
     \<lparr> name = JStr ''C'', description = JStr '''', remarks = JArr [], examples = JArr [],
       devNotes = JArr [], todos = JArr [], requires = JArr [], fileName = JStr '''',
       implements = JArr [],
       constructors =
         [\<lparr> name = JStr ''Create'', description = JStr '''', remarks = JArr [],
            examples = JArr [], devNotes = JArr [], todos = JArr [], requires = JArr [],
            params = JArr [JObj [(''name'', JStr ''x''), (''type'', JStr ''Long'')]],
            isProtected = JBool False, returns = defaultReturns,
            throws = JArr [], isStatic = JBool False, isDefaultMember = JBool False,
            deprecation = defaultDeprecation \<rparr>],
       properties = [], methods = [], events = [] \<rparr>"
proof -
  let ?item = "JObj [(''name'', JStr ''C''), (''constructors'', JArr [JObj [(''name'', JStr ''Create''),
        (''params'', JArr [JObj [(''name'', JStr ''x''), (''type'', JStr ''Long'')]])]])]"
  let ?c = "\<lparr> name = JStr ''C'', description = JStr '''', remarks = JArr [], examples = JArr [],
       devNotes = JArr [], todos = JArr [], requires = JArr [], fileName = JStr '''',
       implements = JArr [],
       constructors =
         [\<lparr> name = JStr ''Create'', description = JStr '''', remarks = JArr [],
            examples = JArr [], devNotes = JArr [], todos = JArr [], requires = JArr [],
            params = JArr [JObj [(''name'', JStr ''x''), (''type'', JStr ''Long'')]],
            isProtected = JBool False, returns = defaultReturns,
            throws = JArr [], isStatic = JBool False, isDefaultMember = JBool False,
            deprecation = defaultDeprecation \<rparr>],
       properties = [], methods = [], events = [] \<rparr>"
  have n: "normalizeItem ?item = Inr (Inl ?c)" by (simp add: loader_defs)
  from optional_fields_defaulted [OF n] have "classOk ?item ?c" by simp
  with n show ?thesis by (rule conjI)
qed

text \<open>
  C3, as stated, fails. The loader accepts both payloads below. In the first, the one
  parameter of the function \<open>f\<close> has no description, and has none after normalization;
  in the second, the record has no name, and the module's name is \<open>undefined\<close>.
\<close>

theorem nested_fields_stay_undefined:
  "map (\<lambda>m. map (\<lambda>f. map (\<lambda>p. property p ''description'') (elements (params f))) (mfunctions m))
     (modules (projr (normalize (JArr
        [JObj [(''name'', JStr ''M''),
               (''methods'', JArr [JObj [(''name'', JStr ''f''),
                    (''params'', JArr [JObj [(''name'', JStr ''x''), (''type'', JStr ''Long'')]])]])]]))))
     = [[[JUndefined]]] \<and>
   map name (modules (projr (normalize (JArr [JObj [(''methods'', JArr [])]])))) = [JUndefined]"
  by (simp add: loader_defs elements_def)

section \<open>Properties of the failed load\<close>

lemma loadFails_tryLoad: "loadFails r \<Longrightarrow> \<exists>e. tryLoad r = Inl e"
  by (cases r) (auto simp: tryLoad_def split: body.splits)

lemma null_element_raises: "tryLoad (Response True 200 (Json (JArr (JNull # rest)))) = Inl TypeError"
  by (simp add: tryLoad_def loader_defs)

lemma urlEffect_initState: "fst (urlEffect q initState) = initState"
  by (cases q) (simp_all add: urlEffect_def initState_def emptyData_def)

lemma fetch_raise:
  assumes "tryLoad (net 0) = Inl e"
  shows "fetchDocumentation net st = (st\<lparr>error := Some errorMessage, loading := False\<rparr>, 1)"
  using assms by (simp add: fetchDocumentation_def)

lemma startup_raise:
  assumes "tryLoad (net 0) = Inl e"
  shows "fst (startup q net) = initState\<lparr>error := Some errorMessage, loading := False\<rparr>"
  using assms by (simp add: fetchDocumentation_def startup_def urlEffect_initState)

lemma render_error:
  "renderContent (st\<lparr>error := Some errorMessage, loading := False\<rparr>) = Inr (ErrorView errorMessage)"
  by (simp add: renderContent_def errorShown_def errorMessage_def)

text \<open>
  C7. When the request fails (the fetch rejects, the status is not OK or the body is not
  JSON), the loader sets the one error message and clears the loading flag, changes
  nothing else (the document stays as it was, empty after mounting), and has sent one
  request: what the network would answer to another request plays no part. The page
  then shows the error message.
\<close>

theorem failed_load_fails_closed:
  assumes "loadFails (net 0)"
  shows "fetchDocumentation net st = (st\<lparr>error := Some errorMessage, loading := False\<rparr>, 1) \<and>
         data (fst (fetchDocumentation net st)) = data st \<and>
         (\<forall>net'. net' 0 = net 0 \<longrightarrow> fetchDocumentation net' st = fetchDocumentation net st) \<and>
         fst (startup q net) = initState\<lparr>error := Some errorMessage, loading := False\<rparr> \<and>
         data (fst (startup q net)) = emptyData \<and>
         renderContent (fst (startup q net)) = Inr (ErrorView errorMessage)"
proof -
  from loadFails_tryLoad [OF assms] obtain e where e: "tryLoad (net 0) = Inl e" ..
  have a: "fetchDocumentation net st = (st\<lparr>error := Some errorMessage, loading := False\<rparr>, 1)"
    using fetch_raise [of net e st] e by simp
  have b: "fetchDocumentation net' st = fetchDocumentation net st" if "net' 0 = net 0" for net'
    using that by (simp add: fetchDocumentation_def)
  have c: "fst (startup q net) = initState\<lparr>error := Some errorMessage, loading := False\<rparr>"
    using startup_raise [of net e q] e by simp
  have d: "renderContent (fst (startup q net)) = Inr (ErrorView errorMessage)"
    unfolding c by (rule render_error)
  have "data (fst (fetchDocumentation net st)) = data st" by (simp add: a)
  moreover have "data (fst (startup q net)) = emptyData" by (simp add: c initState_def)
  ultimately show ?thesis using a b c d by blast
qed

theorem failed_load_fails_closed_witness:
  "loadFails (Response False 404 BadJson) \<and>
   fetchDocumentation (\<lambda>n. if n = 0 then Response False 404 BadJson else Response True 200 (Json (JArr [])))
       initState
     = (initState\<lparr>error := Some errorMessage, loading := False\<rparr>, 1) \<and>
   data (fst (startup None
       (\<lambda>n. if n = 0 then Response False 404 BadJson else Response True 200 (Json (JArr [])))))
     = emptyData \<and>
   renderContent (fst (startup None
       (\<lambda>n. if n = 0 then Response False 404 BadJson else Response True 200 (Json (JArr [])))))
     = Inr (ErrorView errorMessage)"
proof -
  let ?net = "\<lambda>n::nat. if n = 0 then Response False 404 BadJson else Response True 200 (Json (JArr []))"
  have f: "loadFails (?net 0)" by simp
  have "loadFails (Response False 404 BadJson)" by simp
  moreover note failed_load_fails_closed [of ?net initState None, OF f]
  ultimately show ?thesis by blast
qed

section \<open>Properties of the navigator\<close>

lemma split_dot_not_Nil [simp]: "split_dot s \<noteq> []"
  by (induction s) (auto split: list.splits)

lemma split_dot_no_dot: "CHR ''.'' \<notin> set s \<Longrightarrow> split_dot s = [s]"
  by (induction s) auto

lemma split_dot_append:
  "CHR ''.'' \<notin> set a \<Longrightarrow> split_dot (a @ CHR ''.'' # b) = a # split_dot b"
  by (induction a) auto

lemma urlEffect_parts:
  assumes "split_dot qs = item # rest" and "qs \<noteq> []"
  shows "urlEffect (Some qs) st =
     (case find (\<lambda>c. name c = JStr item) (classes (data st)) of
        Some cls \<Rightarrow> selectFound TClass (name cls) (case rest of m # _ \<Rightarrow> Some m | [] \<Rightarrow> None) st
      | None \<Rightarrow>
          (case find (\<lambda>m. name m = JStr item) (modules (data st)) of
             Some md \<Rightarrow> selectFound TModule (name md) (case rest of m # _ \<Rightarrow> Some m | [] \<Rightarrow> None) st
           | None \<Rightarrow>
               (if classes (data st) = [] \<and> modules (data st) = []
                then st\<lparr>highlightedMember := None\<rparr> else st, None)))"
  using assms by (auto simp: urlEffect_def strictEq_def Let_def split: option.splits list.splits)

lemma find_name: "find (\<lambda>c. name c = n) xs = Some c \<Longrightarrow> name c = n"
  by (induction xs) (auto split: if_splits)

lemmas example_defs =
  exData_def exFoo_def exAlpha_def exUtil_def exMember_def exProperty_def exEvent_def

lemma normalize_exPayload: "normalize exPayload = Inr exData"
  by (simp add: exPayload_def loader_defs example_defs)

lemma startup_example: "startup None exNet = (exLoaded, None)"
  by (simp add: startup_def urlEffect_initState fetchDocumentation_def tryLoad_def exNet_def
      normalize_exPayload urlEffect_def initState_def exLoaded_def)

lemma selectFound_fields:
  "selectedItem (fst (selectFound ty nm mn st)) = Some \<lparr>sel_type = ty, sel_name = nm\<rparr>"
  "data (fst (selectFound ty nm mn st)) = data st"
  "loading (fst (selectFound ty nm mn st)) = loading st"
  "error (fst (selectFound ty nm mn st)) = error st"
  "devMode (fst (selectFound ty nm mn st)) = devMode st"
  "m \<noteq> [] \<Longrightarrow> highlightedMember (fst (selectFound ty nm (Some m) st)) = Some m"
  "m \<noteq> [] \<Longrightarrow> snd (selectFound ty nm (Some m) st) = Some m"
  "highlightedMember (fst (selectFound ty nm (Some []) st)) = highlightedMember st"
  "highlightedMember (fst (selectFound ty nm None st)) = highlightedMember st"
  by (auto simp: selectFound_def Let_def split: option.splits)

lemma render_selected_class:
  assumes "selectedItem st = Some \<lparr>sel_type = TClass, sel_name = n\<rparr>"
    and "find (\<lambda>c. name c = n) (classes (data st)) = Some cls"
    and "\<not> loading st" and "errorShown st = None"
  shows "renderContent st = (case classView st cls of Inl e \<Rightarrow> Inl e | Inr v \<Rightarrow> Inr (ClassView v))"
  using assms by (simp add: renderContent_def strictEq_def)

lemma render_selected_module:
  assumes "selectedItem st = Some \<lparr>sel_type = TModule, sel_name = n\<rparr>"
    and "find (\<lambda>m. name m = n) (modules (data st)) = Some md"
    and "\<not> loading st" and "errorShown st = None"
  shows "renderContent st = (case moduleView st md of Inl e \<Rightarrow> Inl e | Inr v \<Rightarrow> Inr (ModuleView v))"
  using assms by (simp add: renderContent_def strictEq_def)

lemma errorShown_cong: "error st' = error st \<Longrightarrow> errorShown st' = errorShown st"
  by (simp add: errorShown_def)

lemma deep_link_parts:
  assumes parts: "split_dot q = [item, member]" and ne: "q \<noteq> []"
  shows
    "(\<forall>cls. find (\<lambda>c. name c = JStr item) (classes (data st)) = Some cls \<longrightarrow>
        selectedItem (fst (urlEffect (Some q) st))
          = Some \<lparr>sel_type = TClass, sel_name = JStr item\<rparr> \<and>
        (member \<noteq> [] \<longrightarrow>
           highlightedMember (fst (urlEffect (Some q) st)) = Some member \<and>
           snd (urlEffect (Some q) st) = Some member) \<and>
        (\<not> loading st \<and> errorShown st = None \<longrightarrow>
           renderContent (fst (urlEffect (Some q) st))
             = (case classView (fst (urlEffect (Some q) st)) cls of
                  Inl e \<Rightarrow> Inl e | Inr v \<Rightarrow> Inr (ClassView v)))) \<and>
     (find (\<lambda>c. name c = JStr item) (classes (data st)) = None \<longrightarrow>
      (\<forall>md. find (\<lambda>m. name m = JStr item) (modules (data st)) = Some md \<longrightarrow>
        selectedItem (fst (urlEffect (Some q) st))
          = Some \<lparr>sel_type = TModule, sel_name = JStr item\<rparr> \<and>
        (member \<noteq> [] \<longrightarrow>
           highlightedMember (fst (urlEffect (Some q) st)) = Some member \<and>
           snd (urlEffect (Some q) st) = Some member) \<and>
        (\<not> loading st \<and> errorShown st = None \<longrightarrow>
           renderContent (fst (urlEffect (Some q) st))
             = (case moduleView (fst (urlEffect (Some q) st)) md of
                  Inl e \<Rightarrow> Inl e | Inr v \<Rightarrow> Inr (ModuleView v)))))"
proof -
  let ?st' = "fst (urlEffect (Some q) st)"
  note u = urlEffect_parts [OF parts ne, of st]
  have cls: "selectedItem ?st' = Some \<lparr>sel_type = TClass, sel_name = JStr item\<rparr> \<and>
        (member \<noteq> [] \<longrightarrow> highlightedMember ?st' = Some member \<and> snd (urlEffect (Some q) st) = Some member) \<and>
        (\<not> loading st \<and> errorShown st = None \<longrightarrow>
           renderContent ?st' = (case classView ?st' c of Inl e \<Rightarrow> Inl e | Inr v \<Rightarrow> Inr (ClassView v)))"
    if f: "find (\<lambda>c. name c = JStr item) (classes (data st)) = Some c" for c
  proof -
    have n: "name c = JStr item" using find_name [OF f] .
    have e: "urlEffect (Some q) st = selectFound TClass (JStr item) (Some member) st"
      using u f n by simp
    have s: "selectedItem ?st' = Some \<lparr>sel_type = TClass, sel_name = JStr item\<rparr>"
      by (simp add: e selectFound_fields)
    have d: "data ?st' = data st" "loading ?st' = loading st" "error ?st' = error st"
      by (simp_all add: e selectFound_fields)
    have r: "renderContent ?st' = (case classView ?st' c of Inl e \<Rightarrow> Inl e | Inr v \<Rightarrow> Inr (ClassView v))"
      if "\<not> loading st \<and> errorShown st = None"
      using render_selected_class [OF s, of c] f d that errorShown_cong [OF d(3)] by simp
    show ?thesis using s r by (auto simp: e selectFound_fields)
  qed
  have mod: "selectedItem ?st' = Some \<lparr>sel_type = TModule, sel_name = JStr item\<rparr> \<and>
        (member \<noteq> [] \<longrightarrow> highlightedMember ?st' = Some member \<and> snd (urlEffect (Some q) st) = Some member) \<and>
        (\<not> loading st \<and> errorShown st = None \<longrightarrow>
           renderContent ?st' = (case moduleView ?st' md of Inl e \<Rightarrow> Inl e | Inr v \<Rightarrow> Inr (ModuleView v)))"
    if nf: "find (\<lambda>c. name c = JStr item) (classes (data st)) = None"
      and f: "find (\<lambda>m. name m = JStr item) (modules (data st)) = Some md" for md
  proof -
    have n: "name md = JStr item" using find_name [OF f] .
    have e: "urlEffect (Some q) st = selectFound TModule (JStr item) (Some member) st"
      using u f nf n by simp
    have s: "selectedItem ?st' = Some \<lparr>sel_type = TModule, sel_name = JStr item\<rparr>"
      by (simp add: e selectFound_fields)
    have d: "data ?st' = data st" "loading ?st' = loading st" "error ?st' = error st"
      by (simp_all add: e selectFound_fields)
    have r: "renderContent ?st' = (case moduleView ?st' md of Inl e \<Rightarrow> Inl e | Inr v \<Rightarrow> Inr (ModuleView v))"
      if "\<not> loading st \<and> errorShown st = None"
      using render_selected_module [OF s, of md] f d that errorShown_cong [OF d(3)] by simp
    show ?thesis using s r by (auto simp: e selectFound_fields)
  qed
  show ?thesis using cls mod by blast
qed

text \<open>
  C1. For a query parameter \<open>item.member\<close> (neither part holding a dot): when a class
  is named \<open>item\<close>, the selection becomes that class, whatever the modules are; when no
  class is and a module is, the selection becomes that module. In both cases a member
  part that is not empty becomes the highlighted member and the argument of the scroll
  timer, and once the page has loaded without error the detail view is the view of the
  first class, or module, of that name.
\<close>

theorem deep_link_selects_item:
  assumes "CHR ''.'' \<notin> set item" and "CHR ''.'' \<notin> set member"
  shows
    "(\<forall>cls. find (\<lambda>c. name c = JStr item) (classes (data st)) = Some cls \<longrightarrow>
        selectedItem (fst (urlEffect (Some (item @ ''.'' @ member)) st))
          = Some \<lparr>sel_type = TClass, sel_name = JStr item\<rparr> \<and>
        (member \<noteq> [] \<longrightarrow>
           highlightedMember (fst (urlEffect (Some (item @ ''.'' @ member)) st)) = Some member \<and>
           snd (urlEffect (Some (item @ ''.'' @ member)) st) = Some member) \<and>
        (\<not> loading st \<and> errorShown st = None \<longrightarrow>
           renderContent (fst (urlEffect (Some (item @ ''.'' @ member)) st))
             = (case classView (fst (urlEffect (Some (item @ ''.'' @ member)) st)) cls of
                  Inl e \<Rightarrow> Inl e | Inr v \<Rightarrow> Inr (ClassView v)))) \<and>
     (find (\<lambda>c. name c = JStr item) (classes (data st)) = None \<longrightarrow>
      (\<forall>md. find (\<lambda>m. name m = JStr item) (modules (data st)) = Some md \<longrightarrow>
        selectedItem (fst (urlEffect (Some (item @ ''.'' @ member)) st))
          = Some \<lparr>sel_type = TModule, sel_name = JStr item\<rparr> \<and>
        (member \<noteq> [] \<longrightarrow>
           highlightedMember (fst (urlEffect (Some (item @ ''.'' @ member)) st)) = Some member \<and>
           snd (urlEffect (Some (item @ ''.'' @ member)) st) = Some member) \<and>
        (\<not> loading st \<and> errorShown st = None \<longrightarrow>
           renderContent (fst (urlEffect (Some (item @ ''.'' @ member)) st))
             = (case moduleView (fst (urlEffect (Some (item @ ''.'' @ member)) st)) md of
                  Inl e \<Rightarrow> Inl e | Inr v \<Rightarrow> Inr (ModuleView v)))))"
proof -
  have parts: "split_dot (item @ ''.'' @ member) = [item, member]"
    using split_dot_append [OF assms(1), of member] split_dot_no_dot [OF assms(2)] by simp
  have ne: "item @ ''.'' @ member \<noteq> []" by simp
  show ?thesis by (rule deep_link_parts [OF parts ne])
qed

theorem deep_link_selects_item_witness:
  "CHR ''.'' \<notin> set ''Foo'' \<and> CHR ''.'' \<notin> set ''Bar'' \<and>
   find (\<lambda>c. name c = JStr ''Foo'') (classes (data exLoaded)) = Some exFoo \<and>
   selectedItem (fst (urlEffect (Some ''Foo.Bar'') exLoaded))
     = Some \<lparr>sel_type = TClass, sel_name = JStr ''Foo''\<rparr> \<and>
   highlightedMember (fst (urlEffect (Some ''Foo.Bar'') exLoaded)) = Some ''Bar'' \<and>
   snd (urlEffect (Some ''Foo.Bar'') exLoaded) = Some ''Bar'' \<and>
   renderContent (fst (urlEffect (Some ''Foo.Bar'') exLoaded))
     = (case classView (fst (urlEffect (Some ''Foo.Bar'') exLoaded)) exFoo of
          Inl e \<Rightarrow> Inl e | Inr v \<Rightarrow> Inr (ClassView v)) \<and>
   find (\<lambda>c. name c = JStr ''Util'') (classes (data exLoaded)) = None \<and>
   find (\<lambda>m. name m = JStr ''Util'') (modules (data exLoaded)) = Some exUtil \<and>
   selectedItem (fst (urlEffect (Some ''Util.helper'') exLoaded))
     = Some \<lparr>sel_type = TModule, sel_name = JStr ''Util''\<rparr> \<and>
   highlightedMember (fst (urlEffect (Some ''Util.helper'') exLoaded)) = Some ''helper''"
proof -
  have a: "CHR ''.'' \<notin> set ''Foo''" "CHR ''.'' \<notin> set ''Bar''"
    "CHR ''.'' \<notin> set ''Util''" "CHR ''.'' \<notin> set ''helper''" by simp_all
  have f: "find (\<lambda>c. name c = JStr ''Foo'') (classes (data exLoaded)) = Some exFoo"
    "find (\<lambda>c. name c = JStr ''Util'') (classes (data exLoaded)) = None"
    "find (\<lambda>m. name m = JStr ''Util'') (modules (data exLoaded)) = Some exUtil"
    by (simp_all add: exLoaded_def example_defs)
  have l: "\<not> loading exLoaded \<and> errorShown exLoaded = None"
    by (simp add: exLoaded_def errorShown_def)
  have q: "''Foo'' @ ''.'' @ ''Bar'' = ''Foo.Bar''" "''Util'' @ ''.'' @ ''helper'' = ''Util.helper''"
    by simp_all
  note t1 = deep_link_selects_item [OF a(1) a(2), of exLoaded, unfolded q]
  note t2 = deep_link_selects_item [OF a(3) a(4), of exLoaded, unfolded q]
  have n: "''Bar'' \<noteq> []" "''helper'' \<noteq> []" by simp_all
  show ?thesis using t1 t2 f l a n by blast
qed

lemma urlEffect_frame:
  "data (fst (urlEffect q st)) = data st \<and> loading (fst (urlEffect q st)) = loading st \<and>
   error (fst (urlEffect q st)) = error st \<and> devMode (fst (urlEffect q st)) = devMode st"
  by (auto simp: urlEffect_def Let_def selectFound_def split: option.splits list.splits)

lemma urlEffect_no_match:
  assumes "\<forall>c \<in> set (classes (data st)). name c \<noteq> JStr (hd (split_dot q))"
    and "\<forall>m \<in> set (modules (data st)). name m \<noteq> JStr (hd (split_dot q))"
  shows "selectedItem (fst (urlEffect (Some q) st)) = selectedItem st"
proof -
  obtain p ps where parts: "split_dot q = p # ps"
    using split_dot_not_Nil [of q] by (cases "split_dot q") auto
  have "find (\<lambda>c. strictEq (name c) (JStr p)) (classes (data st)) = None"
    "find (\<lambda>m. strictEq (name m) (JStr p)) (modules (data st)) = None"
    using assms parts by (auto simp: find_None_iff strictEq_def)
  then show ?thesis
    using parts by (simp add: urlEffect_def Let_def)
qed

lemma startup_loaded:
  assumes "tryLoad (net 0) = Inr d"
  shows "startup q net = urlEffect q (initState\<lparr>data := d, loading := False\<rparr>)"
  using assms by (simp add: startup_def urlEffect_initState fetchDocumentation_def)

text \<open>
  C6. When the document has loaded and the item part of the query parameter (the text
  before its first dot) names no class and no module, the effect leaves the selection as
  it was; from mounting, the selection is still null, the detail pane shows the welcome
  view and no outline is mounted.
\<close>

theorem unknown_item_shows_welcome:
  assumes "tryLoad (net 0) = Inr d"
    and "\<forall>c \<in> set (classes d). name c \<noteq> JStr (hd (split_dot q))"
    and "\<forall>m \<in> set (modules d). name m \<noteq> JStr (hd (split_dot q))"
  shows "selectedItem (fst (startup (Some q) net)) = None \<and>
         renderContent (fst (startup (Some q) net)) = Inr (WelcomeView False) \<and>
         outline (fst (startup (Some q) net)) = Inr None \<and>
         (\<forall>st. data st = d \<longrightarrow> selectedItem (fst (urlEffect (Some q) st)) = selectedItem st)"
proof -
  let ?st1 = "initState\<lparr>data := d, loading := False\<rparr>"
  let ?st = "fst (startup (Some q) net)"
  have s: "startup (Some q) net = urlEffect (Some q) ?st1"
    using startup_loaded [of net d "Some q"] assms(1) by simp
  have sel: "selectedItem ?st = None"
    unfolding s using urlEffect_no_match [of ?st1 q] assms(2,3) by (simp add: initState_def)
  have fr: "loading ?st = False" "error ?st = None" "devMode ?st = False"
    unfolding s using urlEffect_frame [of "Some q" ?st1] by (simp_all add: initState_def)
  have r: "renderContent ?st = Inr (WelcomeView False)"
    using sel fr by (simp add: renderContent_def errorShown_def)
  have out: "outline ?st = Inr None" using sel by (simp add: outline_def)
  have "selectedItem (fst (urlEffect (Some q) st)) = selectedItem st" if "data st = d" for st
    using urlEffect_no_match [of st q] assms(2,3) that by simp
  with sel r out show ?thesis by blast
qed

theorem unknown_item_shows_welcome_witness:
  "tryLoad (exNet 0) = Inr exData \<and>
   hd (split_dot ''Unknown'') = ''Unknown'' \<and>
   map name (classes exData) = [JStr ''Foo'', JStr ''Alpha''] \<and>
   map name (modules exData) = [JStr ''Util''] \<and>
   selectedItem (fst (startup (Some ''Unknown'') exNet)) = None \<and>
   renderContent (fst (startup (Some ''Unknown'') exNet)) = Inr (WelcomeView False) \<and>
   outline (fst (startup (Some ''Unknown'') exNet)) = Inr None"
proof -
  have l: "tryLoad (exNet 0) = Inr exData"
    by (simp add: tryLoad_def exNet_def normalize_exPayload)
  have h: "hd (split_dot ''Unknown'') = ''Unknown''" by simp
  have c: "map name (classes exData) = [JStr ''Foo'', JStr ''Alpha'']"
    and m: "map name (modules exData) = [JStr ''Util'']"
    by (simp_all add: example_defs)
  have nc: "\<forall>c \<in> set (classes exData). name c \<noteq> JStr (hd (split_dot ''Unknown''))"
    and nm: "\<forall>m \<in> set (modules exData). name m \<noteq> JStr (hd (split_dot ''Unknown''))"
    by (simp_all add: example_defs)
  from unknown_item_shows_welcome [of exNet exData "''Unknown''", OF l nc nm] l h c m
  show ?thesis by blast
qed

section \<open>Properties of the sidebar\<close>

lemma cuc_total: "codeUnitCompare a b \<le> 0 \<or> codeUnitCompare b a \<le> 0"
  by (induction a b rule: codeUnitCompare.induct) auto

lemma cuc_trans:
  "codeUnitCompare a b \<le> 0 \<Longrightarrow> codeUnitCompare b c \<le> 0 \<Longrightarrow> codeUnitCompare a c \<le> 0"
proof (induction a b arbitrary: c rule: codeUnitCompare.induct)
  case 1
  then show ?case by simp
next
  case (2 y ys)
  show ?case by (cases c) simp_all
next
  case (3 x xs)
  from "3.prems"(1) show ?case by simp
next
  case (4 x xs y ys)
  show ?case
  proof (cases c)
    case Nil
    with "4.prems"(2) show ?thesis by simp
  next
    case (Cons z zs)
    from "4.prems"(1) have xy: "(of_char x :: nat) \<le> of_char y"
      and xy': "(of_char x :: nat) = of_char y \<Longrightarrow> codeUnitCompare xs ys \<le> 0"
      by (auto split: if_splits)
    from "4.prems"(2) Cons have yz: "(of_char y :: nat) \<le> of_char z"
      and yz': "(of_char y :: nat) = of_char z \<Longrightarrow> codeUnitCompare ys zs \<le> 0"
      by (auto split: if_splits)
    show ?thesis
    proof (cases "(of_char x :: nat) < of_char z")
      case True
      then show ?thesis using Cons by simp
    next
      case False
      with xy yz have e: "(of_char x :: nat) = of_char y" "(of_char y :: nat) = of_char z"
        by linarith+
      have "codeUnitCompare xs zs \<le> 0"
        using "4.IH" [of zs] e xy' yz' by simp
      then show ?thesis using Cons e by simp
    qed
  qed
qed

lemma collation_exCompare: "collation exCompare"
proof -
  have "exCompare a (JStr b) \<le> 0 \<or> exCompare b (JStr a) \<le> 0" for a b
    by (simp add: exCompare_def cuc_total)
  moreover have "exCompare a (JStr c) \<le> 0"
    if "exCompare a (JStr b) \<le> 0" "exCompare b (JStr c) \<le> 0" for a b c
    using that cuc_trans [of a b c] by (simp add: exCompare_def)
  ultimately show ?thesis unfolding collation_def by blast
qed

text \<open>The order of the names that the comparator induces on items.\<close>

lemma collation_total:
  assumes "collation lc" and "stringName x" and "stringName y"
  shows "nameLe lc (name x) (name y) \<or> nameLe lc (name y) (name x)"
proof -
  from assms(2,3) obtain a b where "name x = JStr a" "name y = JStr b"
    by (auto simp: stringName_def split: jsval.splits)
  with assms(1) show ?thesis by (auto simp: collation_def nameLe_def)
qed

lemma collation_trans:
  assumes "collation lc" and "stringName x" and "stringName y" and "stringName z"
    and "nameLe lc (name x) (name y)" and "nameLe lc (name y) (name z)"
  shows "nameLe lc (name x) (name z)"
proof -
  from assms(2,3,4) obtain a b c where n: "name x = JStr a" "name y = JStr b" "name z = JStr c"
    by (auto simp: stringName_def split: jsval.splits)
  from assms(1) have "lc a (JStr b) \<le> 0 \<longrightarrow> lc b (JStr c) \<le> 0 \<longrightarrow> lc a (JStr c) \<le> 0"
    unfolding collation_def by blast
  with assms(5,6) n show ?thesis by (simp add: nameLe_def)
qed

lemma compareNames_string:
  "stringName x \<Longrightarrow> \<exists>r. compareNames lc x y = Inr r \<and> (r \<le> 0) = nameLe lc (name x) (name y)"
  by (auto simp: compareNames_def stringName_def nameLe_def split: jsval.splits)

lemma insertE_string:
  assumes "stringName x"
  shows "\<exists>as bs. ys = as @ bs \<and> insertE (compareNames lc) x ys = Inr (as @ x # bs) \<and>
           (\<forall>a \<in> set as. \<not> nameLe lc (name x) (name a)) \<and>
           (case bs of [] \<Rightarrow> True | b # _ \<Rightarrow> nameLe lc (name x) (name b))"
proof (induction ys)
  case Nil
  show ?case by simp
next
  case (Cons y ys)
  from compareNames_string [OF assms, of lc y] obtain r where
    r: "compareNames lc x y = Inr r" "(r \<le> 0) = nameLe lc (name x) (name y)" by blast
  show ?case
  proof (cases "r \<le> 0")
    case True
    with r have "y # ys = [] @ (y # ys) \<and> insertE (compareNames lc) x (y # ys) = Inr ([] @ x # y # ys) \<and>
           (\<forall>a \<in> set []. \<not> nameLe lc (name x) (name a)) \<and>
           (case y # ys of [] \<Rightarrow> True | b # _ \<Rightarrow> nameLe lc (name x) (name b))"
      by simp
    then show ?thesis by blast
  next
    case False
    from Cons.IH obtain as bs where
      ih: "ys = as @ bs" "insertE (compareNames lc) x ys = Inr (as @ x # bs)"
        "\<forall>a \<in> set as. \<not> nameLe lc (name x) (name a)"
        "case bs of [] \<Rightarrow> True | b # _ \<Rightarrow> nameLe lc (name x) (name b)"
      by blast
    with r False have "y # ys = (y # as) @ bs \<and>
           insertE (compareNames lc) x (y # ys) = Inr ((y # as) @ x # bs) \<and>
           (\<forall>a \<in> set (y # as). \<not> nameLe lc (name x) (name a)) \<and>
           (case bs of [] \<Rightarrow> True | b # _ \<Rightarrow> nameLe lc (name x) (name b))"
      by simp
    then show ?thesis by blast
  qed
qed

lemma sortE_string:
  assumes c: "collation lc"
  shows "list_all stringName xs \<Longrightarrow>
         \<exists>ys. sortE (compareNames lc) xs = Inr ys \<and> set ys = set xs \<and> length ys = length xs \<and>
              (distinct (map name xs) \<longrightarrow> distinct (map name ys)) \<and>
              sorted_wrt (\<lambda>a b. nameLe lc (name a) (name b)) ys"
proof (induction xs)
  case Nil
  show ?case by simp
next
  case (Cons x xs)
  let ?le = "\<lambda>a b. nameLe lc (name a) (name b)"
  from Cons.prems have sx: "stringName x" and sxs: "list_all stringName xs" by simp_all
  from Cons.IH [OF sxs] obtain ys where
    ys: "sortE (compareNames lc) xs = Inr ys" "set ys = set xs" "length ys = length xs"
      "distinct (map name xs) \<longrightarrow> distinct (map name ys)" "sorted_wrt ?le ys"
    by blast
  from insertE_string [OF sx, of ys lc] obtain as bs where
    ab: "ys = as @ bs" "insertE (compareNames lc) x ys = Inr (as @ x # bs)"
      "\<forall>a \<in> set as. \<not> ?le x a" "case bs of [] \<Rightarrow> True | b # _ \<Rightarrow> ?le x b"
    by blast
  have sys: "\<forall>y \<in> set ys. stringName y"
    using sxs ys(2) by (simp add: list_all_iff)
  have before: "\<forall>a \<in> set as. ?le a x"
    using ab(1,3) sys sx collation_total [OF c] by (metis Un_iff set_append)
  have after: "\<forall>b \<in> set bs. ?le x b"
  proof (cases bs)
    case Nil
    then show ?thesis by simp
  next
    case (Cons b bs')
    with ab(4) have xb: "?le x b" by simp
    have "\<forall>z \<in> set bs'. ?le b z"
      using ys(5) ab(1) Cons by (simp add: sorted_wrt_append)
    then have "\<forall>z \<in> set bs'. ?le x z"
      using collation_trans [OF c sx _ _ xb] sys ab(1) Cons by auto
    with xb Cons show ?thesis by simp
  qed
  have sorted: "sorted_wrt ?le (as @ x # bs)"
    using ys(5) ab(1) before after by (auto simp: sorted_wrt_append)
  have "set (as @ x # bs) = set (x # xs)" "length (as @ x # bs) = length (x # xs)"
    using ys(2,3) ab(1) by auto
  moreover have "distinct (map name (x # xs)) \<longrightarrow> distinct (map name (as @ x # bs))"
    using ys(2,4) ab(1) by auto
  moreover have "sortE (compareNames lc) (x # xs) = Inr (as @ x # bs)"
    using ys(1) ab(2) by simp
  ultimately show ?case using sorted by blast
qed

lemma navList_string:
  assumes "collation lc" and "validNames xs"
  shows "\<exists>es. navList lc ty sel xs = Inr es \<and>
           distinct (map nav_label es) \<and> set (map nav_label es) = set (map name xs) \<and>
           length es = length xs \<and> sorted_wrt (nameLe lc) (map nav_label es)"
proof -
  from assms(2) have s: "list_all stringName xs" and d: "distinct (map name xs)"
    by (simp_all add: validNames_def)
  from sortE_string [OF assms(1) s] d obtain ys where
    ys: "sortE (compareNames lc) xs = Inr ys" "set ys = set xs" "length ys = length xs"
      "distinct (map name ys)" "sorted_wrt (\<lambda>a b. nameLe lc (name a) (name b)) ys"
    by blast
  show ?thesis
    using ys by (simp add: navList_def comp_def sorted_wrt_map image_image)
qed

text \<open>
  C5. For a document whose class names are distinct strings and whose module names are
  distinct strings, and a collation that is a total preorder, both navigation lists
  render: the labels of the class list are the class names, each once, in the order of
  the collation, and likewise the module list.
\<close>

theorem sidebar_names_once_sorted:
  assumes "collation lc"
    and "validNames (classes (data st))" and "validNames (modules (data st))"
  shows "\<exists>cs ms. sidebarClasses lc st = Inr cs \<and> sidebarModules lc st = Inr ms \<and>
           distinct (map nav_label cs) \<and>
           set (map nav_label cs) = set (map name (classes (data st))) \<and>
           length cs = length (classes (data st)) \<and>
           sorted_wrt (nameLe lc) (map nav_label cs) \<and>
           distinct (map nav_label ms) \<and>
           set (map nav_label ms) = set (map name (modules (data st))) \<and>
           length ms = length (modules (data st)) \<and>
           sorted_wrt (nameLe lc) (map nav_label ms)"
  using navList_string [OF assms(1,2), of TClass "selectedItem st"]
    navList_string [OF assms(1,3), of TModule "selectedItem st"]
  unfolding sidebarClasses_def sidebarModules_def by blast

theorem sidebar_names_once_sorted_witness:
  "collation exCompare \<and> validNames (classes (data exLoaded)) \<and> validNames (modules (data exLoaded)) \<and>
   map name (classes (data exLoaded)) = [JStr ''Foo'', JStr ''Alpha''] \<and>
   map nav_label (projr (sidebarClasses exCompare exLoaded)) = [JStr ''Alpha'', JStr ''Foo''] \<and>
   map nav_label (projr (sidebarModules exCompare exLoaded)) = [JStr ''Util''] \<and>
   distinct (map nav_label (projr (sidebarClasses exCompare exLoaded))) \<and>
   sorted_wrt (nameLe exCompare) (map nav_label (projr (sidebarClasses exCompare exLoaded)))"
proof -
  have v: "validNames (classes (data exLoaded))" "validNames (modules (data exLoaded))"
    by (simp_all add: validNames_def stringName_def exLoaded_def example_defs)
  have n: "map name (classes (data exLoaded)) = [JStr ''Foo'', JStr ''Alpha'']"
    by (simp add: exLoaded_def example_defs)
  have c: "map nav_label (projr (sidebarClasses exCompare exLoaded)) = [JStr ''Alpha'', JStr ''Foo'']"
    by (simp add: sidebarClasses_def navList_def compareNames_def exCompare_def exLoaded_def
        example_defs)
  have m: "map nav_label (projr (sidebarModules exCompare exLoaded)) = [JStr ''Util'']"
    by (simp add: sidebarModules_def navList_def compareNames_def exCompare_def exLoaded_def
        example_defs)
  from sidebar_names_once_sorted [OF collation_exCompare v] obtain cs ms where
    r: "sidebarClasses exCompare exLoaded = Inr cs" "distinct (map nav_label cs)"
      "sorted_wrt (nameLe exCompare) (map nav_label cs)"
    by blast
  from r have "distinct (map nav_label (projr (sidebarClasses exCompare exLoaded)))"
    "sorted_wrt (nameLe exCompare) (map nav_label (projr (sidebarClasses exCompare exLoaded)))"
    by simp_all
  with collation_exCompare v n c m show ?thesis by blast
qed

section \<open>Properties of the detail view and the outline\<close>

lemma detailOf_member: "detailOf h p x = Inr d \<Longrightarrow> d_member d = x"
  by (auto simp: detailOf_def split: sum.splits)

lemma mapE_filter:
  assumes "mapE f xs = Inr ys"
    and "\<forall>x \<in> set xs. P x \<longrightarrow> g x = f x"
    and "\<forall>x \<in> set xs. \<forall>y. f x = Inr y \<longrightarrow> Q y = P x"
  shows "mapE g (filter P xs) = Inr (filter Q ys)"
  using assms
proof (induction xs arbitrary: ys)
  case Nil
  then show ?case by simp
next
  case (Cons x xs)
  from Cons.prems(1) obtain y ys' where
    y: "f x = Inr y" "mapE f xs = Inr ys'" "ys = y # ys'"
    by (auto split: sum.splits)
  have ih: "mapE g (filter P xs) = Inr (filter Q ys')"
    using Cons.IH [OF y(2)] Cons.prems(2,3) by simp
  have q: "Q y = P x" using Cons.prems(3) y(1) by simp
  show ?case
  proof (cases "P x")
    case True
    then have "g x = Inr y" using Cons.prems(2) y(1) by simp
    with True q ih y(3) show ?thesis by simp
  next
    case False
    with q ih y(3) show ?thesis by simp
  qed
qed

lemma details_user:
  assumes "mapE (detailOf h p) xs = Inr ds"
  shows "mapE (detailOf h p) (visible False xs) = Inr (filter publicCard ds)"
  unfolding visible_def
  using mapE_filter [OF assms, of "\<lambda>x. \<not> truthy (isProtected x)" "detailOf h p" publicCard]
  by (auto simp: publicCard_def dest: detailOf_member)

lemma classView_user:
  assumes "classView (st\<lparr>devMode := True\<rparr>) c = Inr v"
  shows "classView (st\<lparr>devMode := False\<rparr>) c =
           Inr (v\<lparr> cv_devMode := False, cv_devNotes := None, cv_todos := None,
                   cv_constructors := filter publicCard (cv_constructors v),
                   cv_properties := filter publicCard (cv_properties v),
                   cv_methods := filter publicCard (cv_methods v),
                   cv_events := filter publicCard (cv_events v) \<rparr>)"
proof -
  let ?h = "highlightedMember st" and ?p = "name c"
  from assms obtain cs ps ms es where
    d: "mapE (detailOf ?h ?p) (constructors c) = Inr cs"
       "mapE (detailOf ?h ?p) (properties c) = Inr ps"
       "mapE (detailOf ?h ?p) (methods c) = Inr ms"
       "mapE (detailOf ?h ?p) (events c) = Inr es"
    and v: "cv_constructors v = cs" "cv_properties v = ps" "cv_methods v = ms" "cv_events v = es"
    by (auto simp: classView_def visible_def Let_def split: sum.splits)
  have v': "v = \<lparr> cv_devMode = True, cv_title = name c,
            cv_description = js_or (description c) (JStr ''''),
            cv_remarks = remarks c, cv_examples = elements (examples c),
            cv_implements = implements c, cv_devNotes = Some (devNotes c),
            cv_todos = Some (todos c), cv_requires = requires c,
            cv_constructors = cs, cv_properties = ps, cv_methods = ms, cv_events = es \<rparr>"
    using assms d by (simp add: classView_def visible_def Let_def)
  show ?thesis
    unfolding v'
    by (simp add: classView_def Let_def details_user [OF d(1)] details_user [OF d(2)]
        details_user [OF d(3)] details_user [OF d(4)])
qed

lemma moduleView_user:
  assumes "moduleView (st\<lparr>devMode := True\<rparr>) m = Inr v"
  shows "moduleView (st\<lparr>devMode := False\<rparr>) m =
           Inr (v\<lparr> mv_devMode := False, mv_devNotes := None, mv_todos := None \<rparr>)"
  using assms by (auto simp: moduleView_def Let_def split: sum.splits)

lemma renderContent_user:
  assumes "renderContent (st\<lparr>devMode := True\<rparr>) = Inr vd"
  shows "renderContent (st\<lparr>devMode := False\<rparr>) = Inr (userProjection vd)"
proof (cases "loading st \<or> errorShown st \<noteq> None \<or> selectedItem st = None")
  case True
  with assms show ?thesis
    by (auto simp: renderContent_def errorShown_def split: option.splits if_splits)
next
  case False
  then obtain sel where sel: "selectedItem st = Some sel" and l: "\<not> loading st"
    and e: "errorShown st = None" by auto
  have e': "errorShown (st\<lparr>devMode := b\<rparr>) = None" for b
    using e by (simp add: errorShown_def)
  show ?thesis
  proof (cases "sel_type sel")
    case TClass
    show ?thesis
    proof (cases "find (\<lambda>c. strictEq (name c) (sel_name sel)) (classes (data st))")
      case None
      with assms sel l e' TClass show ?thesis by (auto simp: renderContent_def)
    next
      case (Some c)
      with assms sel l e' [of True] TClass obtain v where
        v: "classView (st\<lparr>devMode := True\<rparr>) c = Inr v" "vd = ClassView v"
        by (auto simp: renderContent_def split: sum.splits)
      show ?thesis
        using classView_user [OF v(1)] v(2) Some sel l e' [of False] TClass
        by (simp add: renderContent_def)
    qed
  next
    case TModule
    show ?thesis
    proof (cases "find (\<lambda>m. strictEq (name m) (sel_name sel)) (modules (data st))")
      case None
      with assms sel l e' TModule show ?thesis by (auto simp: renderContent_def)
    next
      case (Some m)
      with assms sel l e' [of True] TModule obtain v where
        v: "moduleView (st\<lparr>devMode := True\<rparr>) m = Inr v" "vd = ModuleView v"
        by (auto simp: renderContent_def split: sum.splits)
      show ?thesis
        using moduleView_user [OF v(1)] v(2) Some sel l e' [of False] TModule
        by (simp add: renderContent_def)
    qed
  qed
qed

lemma publicMembers_userProjection: "publicMembers (userProjection v) = publicMembers v"
  by (cases v) (simp_all add: conj_absorb)

lemma panelSection_user:
  assumes "ty = ''constructor'' \<or> ty = ''method'' \<or> ty = ''property'' \<or> ty = ''event''"
  shows "panelSection False title secId ty xs =
           filter (\<lambda>pm. case pm of PHeader t s \<Rightarrow> True
                        | PMember ty' nm member \<Rightarrow> \<not> isProtectedMember member ty')
             (panelSection True title secId ty xs)"
  using assms by (auto simp: panelSection_def visible_def isProtectedMember_def filter_map comp_def)

lemma panelMembers_user:
  "panelMembers False x =
     filter (\<lambda>pm. case pm of PHeader t s \<Rightarrow> True
                  | PMember ty' nm member \<Rightarrow> \<not> isProtectedMember member ty')
       (panelMembers True x)"
proof (cases x)
  case (Inl c)
  then show ?thesis
    by (simp add: panelSection_user [symmetric])
next
  case (Inr m)
  then show ?thesis
    by (simp add: isProtectedMember_def filter_map comp_def)
qed

lemma renderEntry_user:
  assumes "mapE (renderEntry True h) pms = Inr es"
  shows "mapE (renderEntry False h)
           (filter (\<lambda>pm. case pm of PHeader t s \<Rightarrow> True
                        | PMember ty' nm member \<Rightarrow> \<not> isProtectedMember member ty') pms)
         = Inr (filter (\<lambda>e. \<not> entryProtected e) es)"
proof (rule mapE_filter [OF assms])
  show "\<forall>x \<in> set pms. (case x of PHeader t s \<Rightarrow> True
                        | PMember ty' nm member \<Rightarrow> \<not> isProtectedMember member ty')
          \<longrightarrow> renderEntry False h x = renderEntry True h x"
  proof
    fix x assume "x \<in> set pms"
    show "(case x of PHeader t s \<Rightarrow> True
                        | PMember ty' nm member \<Rightarrow> \<not> isProtectedMember member ty')
          \<longrightarrow> renderEntry False h x = renderEntry True h x"
      by (cases x) (auto split: sum.splits)
  qed
  show "\<forall>x \<in> set pms. \<forall>y. renderEntry True h x = Inr y \<longrightarrow>
          (\<not> entryProtected y) = (case x of PHeader t s \<Rightarrow> True
                        | PMember ty' nm member \<Rightarrow> \<not> isProtectedMember member ty')"
  proof (intro ballI allI impI)
    fix x y assume "x \<in> set pms" and r: "renderEntry True h x = Inr y"
    from r show "(\<not> entryProtected y) = (case x of PHeader t s \<Rightarrow> True
                        | PMember ty' nm member \<Rightarrow> \<not> isProtectedMember member ty')"
      by (cases x) (auto split: sum.splits)
  qed
qed

lemma OnThisPagePanel_user:
  assumes "OnThisPagePanel item True h = Inr es"
  shows "OnThisPagePanel item False h = Inr (map_option (filter (\<lambda>e. \<not> entryProtected e)) es)"
proof (cases item)
  case None
  with assms show ?thesis by (simp add: OnThisPagePanel_def)
next
  case (Some x)
  with assms obtain es' where
    es': "mapE (renderEntry True h) (panelMembers True x) = Inr es'" "es = Some es'"
    by (auto simp: OnThisPagePanel_def split: sum.splits)
  show ?thesis
    using renderEntry_user [OF es'(1)] es'(2) Some
    by (simp add: OnThisPagePanel_def panelMembers_user [symmetric])
qed

lemma outline_user:
  assumes "outline (st\<lparr>devMode := True\<rparr>) = Inr es"
  shows "outline (st\<lparr>devMode := False\<rparr>) = Inr (map_option (filter (\<lambda>e. \<not> entryProtected e)) es)"
proof (cases "selectedItem st")
  case None
  with assms show ?thesis by (auto simp: outline_def)
next
  case (Some sel)
  define item where "item =
    (case sel_type sel of
       TClass \<Rightarrow> map_option Inl (find (\<lambda>c. strictEq (name c) (sel_name sel)) (classes (data st)))
     | TModule \<Rightarrow> map_option Inr (find (\<lambda>m. strictEq (name m) (sel_name sel)) (modules (data st))))"
  have o: "outline (st\<lparr>devMode := b\<rparr>) = OnThisPagePanel item b (highlightedMember st)" for b
    using Some by (simp add: outline_def item_def split: item_type.splits)
  show ?thesis
    using assms OnThisPagePanel_user [of item "highlightedMember st" es] by (simp add: o)
qed

text \<open>
  What the components return on a toggle. From a render in dev mode, the render in user
  mode returns the same view without the cards of protected class members, without the
  item's dev notes and TODOs, and with the other label on the mode button; the public
  members of the view are the same; and the lines the panel returns are those of dev
  mode without the greyed ones. The cards of the detail view are keyed by their index,
  so the page shows them as returned.
\<close>

lemma toggle_returns_user_projection:
  assumes "devMode st" and "renderContent st = Inr vd"
  shows "renderContent (handleToggleMode st) = Inr (userProjection vd) \<and>
         publicMembers (userProjection vd) = publicMembers vd \<and>
         (\<forall>es. outline st = Inr es \<longrightarrow>
            outline (handleToggleMode st)
              = Inr (map_option (filter (\<lambda>e. \<not> entryProtected e)) es))"
proof -
  have st: "st\<lparr>devMode := True\<rparr> = st" using assms(1) by simp
  have t: "handleToggleMode st = st\<lparr>devMode := False\<rparr>"
    using assms(1) by (simp add: handleToggleMode_def)
  have "renderContent (handleToggleMode st) = Inr (userProjection vd)"
    unfolding t using renderContent_user [of st vd] assms(2) st by simp
  moreover have "outline (handleToggleMode st)
              = Inr (map_option (filter (\<lambda>e. \<not> entryProtected e)) es)"
    if "outline st = Inr es" for es
    unfolding t using outline_user [of st es] that st by simp
  ultimately show ?thesis using publicMembers_userProjection by blast
qed

lemma deep_link_example: "fst (urlEffect (Some ''Foo.Bar'') exLoaded) = exSelected"
  by (simp add: urlEffect_def selectFound_def strictEq_def exLoaded_def exSelected_def example_defs
      Let_def)

lemmas view_defs =
  renderContent_def errorShown_def classView_def moduleView_def detailOf_def detailId_def
  highlightEq_def visible_def strictEq_def is_space_def elements_def js_or_def

lemma details_members: "mapE (detailOf h p) xs = Inr ds \<Longrightarrow> map d_member ds = xs"
  by (induction xs arbitrary: ds) (auto split: sum.splits dest: detailOf_member)

lemma detailOf_id: "detailOf h p x = Inr d \<Longrightarrow> detailId (name x) = Inr (d_id d)"
  by (auto simp: detailOf_def split: sum.splits)

lemma detailOf_highlight: "detailOf h p x = Inr d \<Longrightarrow> d_highlight d = highlightEq h (name x)"
  by (auto simp: detailOf_def split: sum.splits)

lemma function_entries:
  "mapE (detailOf h p) xs = Inr ds \<Longrightarrow>
   mapE (renderEntry b h') (map (\<lambda>f. PMember ''function'' (name f) None) xs) =
     Inr (map (\<lambda>d. OMember ''function'' (name (d_member d)) (d_id d) False
                 (case h' of Some s \<Rightarrow> s \<noteq> [] \<and> name (d_member d) = JStr s | None \<Rightarrow> False)) ds)"
proof (induction xs arbitrary: ds)
  case Nil
  then show ?case by simp
next
  case (Cons x xs)
  from Cons.prems obtain d ds' where
    d: "detailOf h p x = Inr d" "mapE (detailOf h p) xs = Inr ds'" "ds = d # ds'"
    by (auto split: sum.splits)
  show ?case
    using Cons.IH [OF d(2)] d(3) detailOf_id [OF d(1)] detailOf_member [OF d(1)]
    by (simp add: isProtectedMember_def split: option.splits)
qed

lemma moduleView_functions:
  "moduleView st m = Inr v \<Longrightarrow>
     mapE (detailOf (highlightedMember st) (name m)) (mfunctions m) = Inr (mv_functions v)"
  by (auto simp: moduleView_def Let_def split: sum.splits)

lemma classView_sections:
  assumes "classView st c = Inr v"
  shows "mapE (detailOf (highlightedMember st) (name c)) (visible (devMode st) (constructors c))
           = Inr (cv_constructors v)"
    and "mapE (detailOf (highlightedMember st) (name c)) (visible (devMode st) (properties c))
           = Inr (cv_properties v)"
    and "mapE (detailOf (highlightedMember st) (name c)) (visible (devMode st) (methods c))
           = Inr (cv_methods v)"
    and "mapE (detailOf (highlightedMember st) (name c)) (visible (devMode st) (events c))
           = Inr (cv_events v)"
  using assms by (auto simp: classView_def Let_def split: sum.splits)

text \<open>
  C10. When the detail view of a module renders, its cards are the module's functions,
  all of them and in order, whatever the mode; the view in the other mode has the same
  cards; and the outline lists, in either mode, one entry per function, never greyed. A
  class in user mode, by contrast, shows of each kind only the members that are not
  protected.
\<close>

theorem module_functions_never_filtered:
  assumes "moduleView st m = Inr v"
  shows "map d_member (mv_functions v) = mfunctions m \<and>
         (\<forall>b. \<exists>v'. moduleView (st\<lparr>devMode := b\<rparr>) m = Inr v' \<and> mv_functions v' = mv_functions v) \<and>
         (\<forall>b. OnThisPagePanel (Some (Inr m)) b (highlightedMember st) =
            Inr (Some (if mfunctions m = [] then []
               else OHeader ''Functions'' ''functions-section'' #
                    map (\<lambda>d. OMember ''function'' (name (d_member d)) (d_id d) False
                           (case highlightedMember st of
                              Some s \<Rightarrow> s \<noteq> [] \<and> name (d_member d) = JStr s
                            | None \<Rightarrow> False)) (mv_functions v)))) \<and>
         (\<forall>c cv. classView (st\<lparr>devMode := False\<rparr>) c = Inr cv \<longrightarrow>
            map d_member (cv_constructors cv) = filter (\<lambda>x. \<not> truthy (isProtected x)) (constructors c) \<and>
            map d_member (cv_properties cv) = filter (\<lambda>x. \<not> truthy (isProtected x)) (properties c) \<and>
            map d_member (cv_methods cv) = filter (\<lambda>x. \<not> truthy (isProtected x)) (methods c) \<and>
            map d_member (cv_events cv) = filter (\<lambda>x. \<not> truthy (isProtected x)) (events c))"
proof -
  note f = moduleView_functions [OF assms]
  have a: "map d_member (mv_functions v) = mfunctions m"
    using details_members [OF f] .
  have b: "\<exists>v'. moduleView (st\<lparr>devMode := b\<rparr>) m = Inr v' \<and> mv_functions v' = mv_functions v" for b
    using f by (simp add: moduleView_def Let_def)
  have c: "OnThisPagePanel (Some (Inr m)) b (highlightedMember st) =
            Inr (Some (if mfunctions m = [] then []
               else OHeader ''Functions'' ''functions-section'' #
                    map (\<lambda>d. OMember ''function'' (name (d_member d)) (d_id d) False
                           (case highlightedMember st of
                              Some s \<Rightarrow> s \<noteq> [] \<and> name (d_member d) = JStr s
                            | None \<Rightarrow> False)) (mv_functions v)))" for b
    using function_entries [OF f, of b "highlightedMember st"]
    by (simp add: OnThisPagePanel_def)
  have d: "map d_member (cv_constructors cv) = filter (\<lambda>x. \<not> truthy (isProtected x)) (constructors c) \<and>
            map d_member (cv_properties cv) = filter (\<lambda>x. \<not> truthy (isProtected x)) (properties c) \<and>
            map d_member (cv_methods cv) = filter (\<lambda>x. \<not> truthy (isProtected x)) (methods c) \<and>
            map d_member (cv_events cv) = filter (\<lambda>x. \<not> truthy (isProtected x)) (events c)"
    if "classView (st\<lparr>devMode := False\<rparr>) c = Inr cv" for c cv
    using classView_sections [OF that] by (auto simp: visible_def dest: details_members)
  from a b c d show ?thesis by blast
qed

theorem module_functions_never_filtered_witness:
  "\<not> isl (moduleView exUtilDev exUtil) \<and>
   map d_member (mv_functions (projr (moduleView exUtilDev exUtil)))
     = [exMember ''helper'' False, exMember ''hidden'' True] \<and>
   mv_functions (projr (moduleView (exUtilDev\<lparr>devMode := False\<rparr>) exUtil))
     = mv_functions (projr (moduleView exUtilDev exUtil)) \<and>
   OnThisPagePanel (Some (Inr exUtil)) False (highlightedMember exUtilDev)
     = Inr (Some [OHeader ''Functions'' ''functions-section'',
                  OMember ''function'' (JStr ''helper'') ''helper-detail'' False False,
                  OMember ''function'' (JStr ''hidden'') ''hidden-detail'' False False]) \<and>
   \<not> isl (classView (exUtilDev\<lparr>devMode := False\<rparr>) exFoo) \<and>
   map d_member (cv_methods (projr (classView (exUtilDev\<lparr>devMode := False\<rparr>) exFoo)))
     = [exMember ''Bar'' False, exMember ''Bar'' False]"
proof -
  let ?v = "projr (moduleView exUtilDev exUtil)"
  let ?cv = "projr (classView (exUtilDev\<lparr>devMode := False\<rparr>) exFoo)"
  have ok: "\<not> isl (moduleView exUtilDev exUtil)"
    by (simp add: exUtilDev_def exLoaded_def example_defs view_defs Let_def)
  then have r: "moduleView exUtilDev exUtil = Inr ?v" by simp
  have okc: "\<not> isl (classView (exUtilDev\<lparr>devMode := False\<rparr>) exFoo)"
    by (simp add: exUtilDev_def exLoaded_def example_defs view_defs Let_def)
  then have rc: "classView (exUtilDev\<lparr>devMode := False\<rparr>) exFoo = Inr ?cv" by simp
  note th = module_functions_never_filtered [OF r]
  have a: "map d_member (mv_functions ?v) = [exMember ''helper'' False, exMember ''hidden'' True]"
    using th by (simp add: exUtil_def)
  from th obtain v' where v': "moduleView (exUtilDev\<lparr>devMode := False\<rparr>) exUtil = Inr v'"
    "mv_functions v' = mv_functions ?v" by blast
  then have b: "mv_functions (projr (moduleView (exUtilDev\<lparr>devMode := False\<rparr>) exUtil))
     = mv_functions ?v" by simp
  have ids: "map (\<lambda>d. (name (d_member d), d_id d)) (mv_functions ?v)
     = [(JStr ''helper'', ''helper-detail''), (JStr ''hidden'', ''hidden-detail'')]"
    by (simp add: exUtilDev_def exLoaded_def example_defs view_defs Let_def)
  from th have "OnThisPagePanel (Some (Inr exUtil)) False (highlightedMember exUtilDev) =
            Inr (Some (if mfunctions exUtil = [] then []
               else OHeader ''Functions'' ''functions-section'' #
                    map (\<lambda>d. OMember ''function'' (name (d_member d)) (d_id d) False
                           (case highlightedMember exUtilDev of
                              Some s \<Rightarrow> s \<noteq> [] \<and> name (d_member d) = JStr s
                            | None \<Rightarrow> False)) (mv_functions ?v)))"
    by blast
  moreover have "highlightedMember exUtilDev = None" "mfunctions exUtil \<noteq> []"
    by (simp_all add: exUtilDev_def exLoaded_def exUtil_def)
  moreover have "map (\<lambda>d. OMember ''function'' (name (d_member d)) (d_id d) False False) (mv_functions ?v)
    = map (\<lambda>p. OMember ''function'' (fst p) (snd p) False False)
        (map (\<lambda>d. (name (d_member d), d_id d)) (mv_functions ?v))"
    by (simp add: comp_def)
  ultimately have c: "OnThisPagePanel (Some (Inr exUtil)) False (highlightedMember exUtilDev)
     = Inr (Some [OHeader ''Functions'' ''functions-section'',
                  OMember ''function'' (JStr ''helper'') ''helper-detail'' False False,
                  OMember ''function'' (JStr ''hidden'') ''hidden-detail'' False False])"
    by (simp add: ids)
  from th rc have "map d_member (cv_methods ?cv) = filter (\<lambda>x. \<not> truthy (isProtected x)) (methods exFoo)"
    by blast
  then have d: "map d_member (cv_methods ?cv) = [exMember ''Bar'' False, exMember ''Bar'' False]"
    by (simp add: exFoo_def exMember_def)
  from ok a b c okc d show ?thesis by blast
qed

lemma section_cards:
  assumes "mapE (detailOf h p) xs = Inr ds" and "Card i nm hl \<in> set (sectionElements secId ds)"
  shows "hl = highlightEq h nm \<and> detailId nm = Inr i"
proof -
  from assms(2) obtain d where d: "d \<in> set ds" "i = d_id d" "nm = name (d_member d)"
    "hl = d_highlight d"
    by (auto simp: sectionElements_def split: if_splits)
  from mapE_Inr [OF assms(1)] d(1) obtain x where x: "detailOf h p x = Inr d"
    by (auto simp: list_all2_conv_all_nth in_set_conv_nth)
  show ?thesis
    using detailOf_id [OF x] detailOf_highlight [OF x] detailOf_member [OF x] d by simp
qed

lemma renderContent_views:
  assumes "renderContent st = Inr v"
  shows "(\<forall>cv. v = ClassView cv \<longrightarrow> (\<exists>c. classView st c = Inr cv)) \<and>
         (\<forall>mv. v = ModuleView mv \<longrightarrow> (\<exists>m. moduleView st m = Inr mv))"
  using assms
  by (auto simp: renderContent_def split: if_splits option.splits item_type.splits sum.splits)

lemma page_cards:
  assumes "renderContent st = Inr v" and "Card i nm hl \<in> set (pageElements v)"
  shows "hl = highlightEq (highlightedMember st) nm \<and> detailId nm = Inr i"
proof (cases v)
  case (ClassView cv)
  with renderContent_views [OF assms(1)] obtain c where c: "classView st c = Inr cv" by blast
  note s = classView_sections [OF c]
  from assms(2) ClassView consider
      "Card i nm hl \<in> set (sectionElements ''constructors-section'' (cv_constructors cv))"
    | "Card i nm hl \<in> set (sectionElements ''properties-section'' (cv_properties cv))"
    | "Card i nm hl \<in> set (sectionElements ''methods-section'' (cv_methods cv))"
    | "Card i nm hl \<in> set (sectionElements ''events-section'' (cv_events cv))"
    by auto
  then show ?thesis
  proof cases
    case 1 then show ?thesis using section_cards [OF s(1)] by blast
  next
    case 2 then show ?thesis using section_cards [OF s(2)] by blast
  next
    case 3 then show ?thesis using section_cards [OF s(3)] by blast
  next
    case 4 then show ?thesis using section_cards [OF s(4)] by blast
  qed
next
  case (ModuleView mv)
  with renderContent_views [OF assms(1)] obtain m where m: "moduleView st m = Inr mv" by blast
  from assms(2) ModuleView
  have "Card i nm hl \<in> set (sectionElements ''functions-section'' (mv_functions mv))" by simp
  then show ?thesis using section_cards [OF moduleView_functions [OF m]] by blast
qed (use assms(2) in simp_all)

lemma getElementById_first:
  assumes "getElementById els i = Some (n, e)"
  shows "n < length els \<and> els ! n = e \<and> elementId e = i \<and> (\<forall>k<n. elementId (els ! k) \<noteq> i)"
proof -
  from assms obtain j where j: "j < length (enumerate 0 els)"
    "elementId (snd (enumerate 0 els ! j)) = i" "(n, e) = enumerate 0 els ! j"
    "\<forall>k<j. elementId (snd (enumerate 0 els ! k)) \<noteq> i"
    unfolding getElementById_def find_Some_iff by blast
  from j(1) have jl: "j < length els" by simp
  with j(3) have ne: "n = j" "e = els ! j" by (simp_all add: nth_enumerate_eq)
  have "\<forall>k<n. elementId (els ! k) \<noteq> i"
  proof (intro allI impI)
    fix k assume "k < n"
    with ne jl j(4) show "elementId (els ! k) \<noteq> i" by (simp add: nth_enumerate_eq)
  qed
  with ne jl j(2) show ?thesis by (simp add: nth_enumerate_eq)
qed

lemma getElementById_exists:
  assumes "e \<in> set els" and "elementId e = i"
  shows "getElementById els i \<noteq> None"
proof -
  from assms(1) obtain n where n: "n < length els" "els ! n = e" by (auto simp: in_set_conv_nth)
  then have "(n, e) \<in> set (enumerate 0 els)" by (auto simp: in_set_enumerate_eq)
  with assms(2) show ?thesis
    by (auto simp: getElementById_def find_None_iff)
qed

text \<open>
  C8, as the page does it. On every rendered detail view, each card is highlighted
  exactly when its member's name is the highlighted name, so all the members of that
  name are marked, in whatever section they stand. The scroll timer takes the first
  element of the page, in document order, whose id is the one derived from the member
  name, and finds one whenever an element has that id.
\<close>

theorem every_match_highlighted_first_scrolled:
  assumes "renderContent st = Inr v"
  shows "(\<forall>i nm hl. Card i nm hl \<in> set (pageElements v) \<longrightarrow>
            hl = highlightEq (highlightedMember st) nm \<and> detailId nm = Inr i) \<and>
         (\<forall>m n e. scrollTarget v m = Some (n, e) \<longrightarrow>
            n < length (pageElements v) \<and> pageElements v ! n = e \<and>
            elementId e = replaceSpaces m @ ''-detail'' \<and>
            (\<forall>k<n. elementId (pageElements v ! k) \<noteq> replaceSpaces m @ ''-detail'')) \<and>
         (\<forall>m. (\<exists>e \<in> set (pageElements v). elementId e = replaceSpaces m @ ''-detail'') \<longrightarrow>
            scrollTarget v m \<noteq> None)"
proof -
  have a: "hl = highlightEq (highlightedMember st) nm \<and> detailId nm = Inr i"
    if "Card i nm hl \<in> set (pageElements v)" for i nm hl
    using page_cards [OF assms that] .
  have b: "n < length (pageElements v) \<and> pageElements v ! n = e \<and>
            elementId e = replaceSpaces m @ ''-detail'' \<and>
            (\<forall>k<n. elementId (pageElements v ! k) \<noteq> replaceSpaces m @ ''-detail'')"
    if "scrollTarget v m = Some (n, e)" for m n e
    using getElementById_first [of "pageElements v" "replaceSpaces m @ ''-detail''" n e] that
    unfolding scrollTarget_def by blast
  have c: "scrollTarget v m \<noteq> None"
    if "\<exists>e \<in> set (pageElements v). elementId e = replaceSpaces m @ ''-detail''" for m
    using that getElementById_exists unfolding scrollTarget_def by blast
  from a b c show ?thesis by blast
qed

lemma startup_deep_link: "startup (Some ''Foo.Bar'') exNet = (exSelected, Some ''Bar'')"
proof -
  have l: "tryLoad (exNet 0) = Inr exData"
    by (simp add: tryLoad_def exNet_def normalize_exPayload)
  have s: "initState\<lparr>data := exData, loading := False\<rparr> = exLoaded"
    by (simp add: initState_def exLoaded_def)
  have "urlEffect (Some ''Foo.Bar'') exLoaded = (exSelected, Some ''Bar'')"
    by (simp add: urlEffect_def selectFound_def strictEq_def exLoaded_def exSelected_def
        example_defs Let_def)
  then show ?thesis
    using startup_loaded [of exNet exData "Some ''Foo.Bar''"] l s by simp
qed

lemma page_exSelected:
  "renderContent exSelected = Inr (projr (renderContent exSelected)) \<and>
   pageElements (projr (renderContent exSelected)) =
     [Heading ''constructors-section'', Card ''Create-detail'' (JStr ''Create'') False,
      Heading ''properties-section'', Card ''Value-detail'' (JStr ''Value'') False,
      Heading ''methods-section'', Card ''Bar-detail'' (JStr ''Bar'') True,
      Card ''Bar-detail'' (JStr ''Bar'') True,
      Heading ''events-section'', Card ''Changed-detail'' (JStr ''Changed'') False]"
  by (simp add: exSelected_def exLoaded_def example_defs view_defs Let_def sectionElements_def)

theorem every_match_highlighted_first_scrolled_witness:
  "renderContent exSelected = Inr (projr (renderContent exSelected)) \<and>
   pageElements (projr (renderContent exSelected)) =
     [Heading ''constructors-section'', Card ''Create-detail'' (JStr ''Create'') False,
      Heading ''properties-section'', Card ''Value-detail'' (JStr ''Value'') False,
      Heading ''methods-section'', Card ''Bar-detail'' (JStr ''Bar'') True,
      Card ''Bar-detail'' (JStr ''Bar'') True,
      Heading ''events-section'', Card ''Changed-detail'' (JStr ''Changed'') False] \<and>
   highlightEq (highlightedMember exSelected) (JStr ''Bar'') \<and>
   detailId (JStr ''Bar'') = Inr ''Bar-detail'' \<and>
   scrollTarget (projr (renderContent exSelected)) ''Bar''
     = Some (5, Card ''Bar-detail'' (JStr ''Bar'') True) \<and>
   pageElements (projr (renderContent exSelected)) ! 5 = Card ''Bar-detail'' (JStr ''Bar'') True \<and>
   scrollTarget (projr (renderContent exSelected)) ''Secret'' = None"
proof -
  let ?v = "projr (renderContent exSelected)"
  from page_exSelected have r: "renderContent exSelected = Inr ?v" and
    p: "pageElements ?v =
     [Heading ''constructors-section'', Card ''Create-detail'' (JStr ''Create'') False,
      Heading ''properties-section'', Card ''Value-detail'' (JStr ''Value'') False,
      Heading ''methods-section'', Card ''Bar-detail'' (JStr ''Bar'') True,
      Card ''Bar-detail'' (JStr ''Bar'') True,
      Heading ''events-section'', Card ''Changed-detail'' (JStr ''Changed'') False]"
    by blast+
  note th = every_match_highlighted_first_scrolled [OF r]
  have "Card ''Bar-detail'' (JStr ''Bar'') True \<in> set (pageElements ?v)" by (simp add: p)
  with th have h: "True = highlightEq (highlightedMember exSelected) (JStr ''Bar'') \<and>
      detailId (JStr ''Bar'') = Inr ''Bar-detail''" by blast
  have t: "scrollTarget ?v ''Bar'' = Some (5, Card ''Bar-detail'' (JStr ''Bar'') True)"
    by (simp add: scrollTarget_def getElementById_def p is_space_def)
  with th have n: "pageElements ?v ! 5 = Card ''Bar-detail'' (JStr ''Bar'') True" by blast
  have s: "scrollTarget ?v ''Secret'' = None"
    by (simp add: scrollTarget_def getElementById_def p is_space_def)
  from r p h t n s show ?thesis by blast
qed

text \<open>
  C8, as stated, fails. The example payload, opened with \<^verbatim>\<open>?q=Foo.Bar\<close>, gives a page
  on which the class \<open>Foo\<close> shows two methods named \<open>Bar\<close>, and both cards are
  highlighted, not the first only.
\<close>

theorem duplicate_names_all_highlighted:
  "map (\<lambda>d. (name (d_member d), d_highlight d))
     (case renderContent (fst (startup (Some ''Foo.Bar'') exNet)) of
        Inr (ClassView v) \<Rightarrow> cv_methods v | _ \<Rightarrow> [])
   = [(JStr ''Bar'', True), (JStr ''Bar'', True)]"
  by (simp add: startup_deep_link)
     (simp add: exSelected_def exLoaded_def example_defs view_defs Let_def)

section \<open>When the page renders\<close>

text \<open>
  A detail view renders whenever the names of the members it shows are strings, as the
  interfaces declare them; so does the outline.
\<close>

lemma detailOf_total: "stringName x \<Longrightarrow> \<exists>d. detailOf h p x = Inr d"
  by (auto simp: detailOf_def detailId_def stringName_def split: jsval.splits)

lemma details_all_total:
  "\<forall>x \<in> set xs. stringName x \<Longrightarrow> \<exists>ds. mapE (detailOf h p) xs = Inr ds"
proof (rule mapE_total, rule ballI)
  fix x assume "\<forall>x \<in> set xs. stringName x" and "x \<in> set xs"
  then have "stringName x" by blast
  then show "\<exists>y. detailOf h p x = Inr y" by (rule detailOf_total)
qed

lemma details_total:
  assumes "list_all stringName xs"
  shows "\<exists>ds. mapE (detailOf h p) (visible dev xs) = Inr ds"
proof -
  from assms have "\<forall>x \<in> set (visible dev xs). stringName x"
    by (auto simp: visible_def list_all_iff)
  then show ?thesis by (rule details_all_total)
qed

lemma classView_total:
  assumes "list_all stringName (constructors c)" and "list_all stringName (properties c)"
    and "list_all stringName (methods c)" and "list_all stringName (events c)"
  shows "\<exists>v. classView st c = Inr v"
proof -
  let ?h = "highlightedMember st" and ?p = "name c" and ?dev = "devMode st"
  from details_total [OF assms(1), of ?h ?p ?dev] details_total [OF assms(2), of ?h ?p ?dev]
    details_total [OF assms(3), of ?h ?p ?dev] details_total [OF assms(4), of ?h ?p ?dev]
  obtain cs ps ms es where
    "mapE (detailOf ?h ?p) (visible ?dev (constructors c)) = Inr cs"
    "mapE (detailOf ?h ?p) (visible ?dev (properties c)) = Inr ps"
    "mapE (detailOf ?h ?p) (visible ?dev (methods c)) = Inr ms"
    "mapE (detailOf ?h ?p) (visible ?dev (events c)) = Inr es"
    by blast
  then show ?thesis by (simp add: classView_def Let_def)
qed

lemma moduleView_total:
  assumes "list_all stringName (mfunctions m)"
  shows "\<exists>v. moduleView st m = Inr v"
proof -
  from assms have "\<forall>x \<in> set (mfunctions m). stringName x" by (simp add: list_all_iff)
  from details_all_total [OF this, of "highlightedMember st" "name m"]
  obtain fs where "mapE (detailOf (highlightedMember st) (name m)) (mfunctions m) = Inr fs" ..
  then show ?thesis by (simp add: moduleView_def Let_def)
qed

lemma find_in_set: "find P xs = Some x \<Longrightarrow> x \<in> set xs"
  by (induction xs) (auto split: if_splits)

lemma renderContent_total:
  assumes "\<forall>c \<in> set (classes (data st)).
             list_all stringName (constructors c) \<and> list_all stringName (properties c) \<and>
             list_all stringName (methods c) \<and> list_all stringName (events c)"
    and "\<forall>m \<in> set (modules (data st)). list_all stringName (mfunctions m)"
  shows "\<exists>v. renderContent st = Inr v"
proof (cases "loading st \<or> errorShown st \<noteq> None \<or> selectedItem st = None")
  case True
  then show ?thesis by (auto simp: renderContent_def split: option.splits)
next
  case False
  then obtain sel where sel: "selectedItem st = Some sel" "\<not> loading st" "errorShown st = None"
    by auto
  show ?thesis
  proof (cases "sel_type sel")
    case TClass
    show ?thesis
    proof (cases "find (\<lambda>c. strictEq (name c) (sel_name sel)) (classes (data st))")
      case None
      with sel TClass show ?thesis by (simp add: renderContent_def)
    next
      case (Some c)
      from find_in_set [OF Some] assms(1) classView_total [of c st]
      obtain v where "classView st c = Inr v" by blast
      with sel TClass Some show ?thesis by (simp add: renderContent_def)
    qed
  next
    case TModule
    show ?thesis
    proof (cases "find (\<lambda>m. strictEq (name m) (sel_name sel)) (modules (data st))")
      case None
      with sel TModule show ?thesis by (simp add: renderContent_def)
    next
      case (Some m)
      from find_in_set [OF Some] assms(2) moduleView_total [of m st]
      obtain v where "moduleView st m = Inr v" by blast
      with sel TModule Some show ?thesis by (simp add: renderContent_def)
    qed
  qed
qed

section \<open>The outline across a toggle\<close>

lemmas outline_defs =
  outline_def OnThisPagePanel_def panelSection_def isProtectedMember_def visible_def
  detailId_def is_space_def strictEq_def

lemmas react_defs =
  showOutline_def reconcileChildren_def emptyMounted_def setLine_def removeNodes_def listed_def
  Let_def

lemma normalize_exDupPayload: "normalize exDupPayload = Inr \<lparr> classes = [exDup], modules = [] \<rparr>"
  by (simp add: exDupPayload_def exDup_def exMember_def loader_defs)

lemma startup_exDup: "startup (Some ''Dup'') exDupNet = (exDupUser, None)"
proof -
  have l: "tryLoad (exDupNet 0) = Inr \<lparr> classes = [exDup], modules = [] \<rparr>"
    by (simp add: tryLoad_def exDupNet_def normalize_exDupPayload)
  have "urlEffect (Some ''Dup'') (initState\<lparr>data := \<lparr> classes = [exDup], modules = [] \<rparr>,
          loading := False\<rparr>) = (exDupUser, None)"
    by (simp add: urlEffect_def selectFound_def strictEq_def initState_def exDupUser_def
        exDup_def Let_def)
  then show ?thesis
    using startup_loaded [of exDupNet "\<lparr> classes = [exDup], modules = [] \<rparr>" "Some ''Dup''"] l
    by simp
qed

lemma toggle_twice: "handleToggleMode (handleToggleMode st) = st"
  by (simp add: handleToggleMode_def)

text \<open>What the panel returns for the example in user mode and in dev mode: the two
  public methods in both.\<close>

lemma outline_exDupUser:
  "outline exDupUser = Inr (Some
     [OHeader ''Methods'' ''methods-section'',
      OMember ''method'' (JStr ''Bar'') ''Bar-detail'' False False,
      OMember ''method'' (JStr ''Bar'') ''Bar-detail'' False False])"
  by (simp add: exDupUser_def exDup_def exMember_def outline_defs)

lemma outline_exDupDev:
  "outline (handleToggleMode exDupUser) = Inr (Some
     [OHeader ''Methods'' ''methods-section'',
      OMember ''method'' (JStr ''Secret'') ''Secret-detail'' True False,
      OMember ''method'' (JStr ''Bar'') ''Bar-detail'' False False,
      OMember ''method'' (JStr ''Bar'') ''Bar-detail'' False False])"
  by (simp add: handleToggleMode_def exDupUser_def exDup_def exMember_def outline_defs)

text \<open>The list items on the page after mounting, after the toggle to dev mode and after
  the toggle back. The items 1 and 2 are left behind: no fiber owns them any more.\<close>

lemma mount_exDup:
  "renders emptyMounted [exDupUser] = Inr
     \<lparr> fibers = [(''methods-section'', 0), (''Bar-detail'', 1), (''Bar-detail'', 2)],
       nodes = [(0, OHeader ''Methods'' ''methods-section''),
                (1, OMember ''method'' (JStr ''Bar'') ''Bar-detail'' False False),
                (2, OMember ''method'' (JStr ''Bar'') ''Bar-detail'' False False)],
       fresh = 3 \<rparr>"
  by (simp add: outline_exDupUser react_defs)

lemma toggle_exDup:
  "renders emptyMounted [exDupUser, handleToggleMode exDupUser] = Inr
     \<lparr> fibers = [(''methods-section'', 0), (''Secret-detail'', 3), (''Bar-detail'', 2),
                 (''Bar-detail'', 4)],
       nodes = [(0, OHeader ''Methods'' ''methods-section''),
                (1, OMember ''method'' (JStr ''Bar'') ''Bar-detail'' False False),
                (3, OMember ''method'' (JStr ''Secret'') ''Secret-detail'' True False),
                (2, OMember ''method'' (JStr ''Bar'') ''Bar-detail'' False False),
                (4, OMember ''method'' (JStr ''Bar'') ''Bar-detail'' False False)],
       fresh = 5 \<rparr>"
  by (simp add: outline_exDupUser outline_exDupDev react_defs)

lemma toggle_back_exDup:
  "renders emptyMounted
     [exDupUser, handleToggleMode exDupUser, handleToggleMode (handleToggleMode exDupUser)] = Inr
     \<lparr> fibers = [(''methods-section'', 0), (''Bar-detail'', 4), (''Bar-detail'', 5)],
       nodes = [(0, OHeader ''Methods'' ''methods-section''),
                (1, OMember ''method'' (JStr ''Bar'') ''Bar-detail'' False False),
                (2, OMember ''method'' (JStr ''Bar'') ''Bar-detail'' False False),
                (4, OMember ''method'' (JStr ''Bar'') ''Bar-detail'' False False),
                (5, OMember ''method'' (JStr ''Bar'') ''Bar-detail'' False False)],
       fresh = 6 \<rparr>"
  by (simp add: toggle_twice outline_exDupUser outline_exDupDev react_defs)

text \<open>Where no key of the second loop repeats, the page lists what the panel returns:
  the class \<open>Foo\<close> of the first example, whose two methods named \<open>Bar\<close> are matched
  in the first loop.\<close>

lemma toggle_exSelected:
  "Some (listed (projr (renders emptyMounted [exSelected, handleToggleMode exSelected])))
     = projr (outline (handleToggleMode exSelected)) \<and>
   Some (listed (projr (renders emptyMounted
       [exSelected, handleToggleMode exSelected, handleToggleMode (handleToggleMode exSelected)])))
     = projr (outline exSelected)"
  by (simp add: handleToggleMode_def exSelected_def exLoaded_def example_defs outline_defs
      react_defs)

text \<open>
  C4 fails on the page, for the outline. The payload \<open>exDupPayload\<close> has one class,
  \<open>Dup\<close>, with a protected method \<open>Secret\<close> followed by two methods named
  \<open>Bar\<close>; it is opened with \<^verbatim>\<open>?q=Dup\<close>. In user mode the outline lists the two public
  methods. After the toggle to dev mode it lists three entries of public members, a
  \<open>Bar\<close> left behind before \<open>Secret\<close>; after the toggle back to user mode it lists
  four. The panel returns the two public methods in each mode: the list items are keyed
  by the target id, which the two methods share.
\<close>

theorem outline_keeps_stale_entries:
  "fst (startup (Some ''Dup'') exDupNet) = exDupUser \<and>
   map entryName (listed (projr (renders emptyMounted [exDupUser])))
     = [JStr ''Methods'', JStr ''Bar'', JStr ''Bar''] \<and>
   map entryName (listed (projr (renders emptyMounted [exDupUser, handleToggleMode exDupUser])))
     = [JStr ''Methods'', JStr ''Bar'', JStr ''Secret'', JStr ''Bar'', JStr ''Bar''] \<and>
   map entryName (listed (projr (renders emptyMounted
       [exDupUser, handleToggleMode exDupUser, handleToggleMode (handleToggleMode exDupUser)])))
     = [JStr ''Methods'', JStr ''Bar'', JStr ''Bar'', JStr ''Bar'', JStr ''Bar''] \<and>
   length (filter publicEntry (listed (projr (renders emptyMounted [exDupUser])))) = 2 \<and>
   length (filter publicEntry
     (listed (projr (renders emptyMounted [exDupUser, handleToggleMode exDupUser])))) = 3 \<and>
   length (filter publicEntry (listed (projr (renders emptyMounted
       [exDupUser, handleToggleMode exDupUser, handleToggleMode (handleToggleMode exDupUser)])))) = 4 \<and>
   length (filter publicEntry (the (projr (outline exDupUser)))) = 2 \<and>
   length (filter publicEntry (the (projr (outline (handleToggleMode exDupUser))))) = 2"
  unfolding startup_exDup mount_exDup toggle_exDup toggle_back_exDup
    outline_exDupUser outline_exDupDev
  by (simp add: listed_def)

end
